theory Spec2Isabelle
  imports Main "HOL-Library.Sublist"
begin

section \<open>Calendar days and the date library's formats\<close>

text \<open>
  The application never handles time zones or dates itself: every date goes through
  the moment library. A calendar day is modelled by its three fields (month 1..12,
  year a natural number), a moment by a day and a wall-clock time. The formats the
  application uses are written out below; the library's lenient parser is not part
  of the repository and is a parameter \<open>parse\<close> of every function that calls it
  (it returns \<open>None\<close> for a string it rejects).
\<close>

record cdate =
  year :: nat
  month :: nat
  dayOfMonth :: nat

definition digit_char :: "nat \<Rightarrow> char" where
  "digit_char n = ''0123456789'' ! (n mod 10)"

fun show_nat :: "nat \<Rightarrow> string" where
  "show_nat n = (if n < 10 then [digit_char n] else show_nat (n div 10) @ [digit_char n])"

declare show_nat.simps [simp del]

text \<open>moment's \<open>zeroFill(number, targetLength)\<close> for a non-negative number.\<close>

definition zeroFill :: "nat \<Rightarrow> nat \<Rightarrow> string" where
  "zeroFill n targetLength =
     replicate (targetLength - length (show_nat n)) (CHR ''0'') @ show_nat n"

definition is_digit :: "char \<Rightarrow> bool" where
  "is_digit c \<longleftrightarrow> c \<in> set ''0123456789''"

definition digit_val :: "char \<Rightarrow> nat" where
  "digit_val c = length (takeWhile (\<lambda>d. d \<noteq> c) ''0123456789'')"

definition read_nat :: "string \<Rightarrow> nat" where
  "read_nat s = foldl (\<lambda>a c. 10 * a + digit_val c) 0 s"

text \<open>Token \<open>YYYY\<close>: the year, filled with zeros to four digits.\<close>

definition format_YYYY :: "nat \<Rightarrow> string" where
  "format_YYYY y = zeroFill y 4"

text \<open>\<open>format('YYYY-DD-MM')\<close>: the day stands before the month.\<close>

definition format_YYYY_DD_MM :: "cdate \<Rightarrow> string" where
  "format_YYYY_DD_MM d =
     format_YYYY (year d) @ ''-'' @ zeroFill (dayOfMonth d) 2 @ ''-'' @ zeroFill (month d) 2"

text \<open>
  \<open>moment(date, 'YYYY-DD-MM').format('YYYY-DD-MM')\<close>: an invalid moment formats as
  the locale's \<open>Invalid date\<close>.
\<close>

definition reformat :: "(string \<Rightarrow> cdate option) \<Rightarrow> string \<Rightarrow> string" where
  "reformat parse s =
     (case parse s of None \<Rightarrow> ''Invalid date'' | Some d \<Rightarrow> format_YYYY_DD_MM d)"

text \<open>
  \<open>a.startOf('day').diff(b.startOf('day')) < 0\<close>: day \<open>a\<close> lies before day \<open>b\<close>.
\<close>

definition before :: "cdate \<Rightarrow> cdate \<Rightarrow> bool" where
  "before a b \<longleftrightarrow>
     year a < year b \<or>
     (year a = year b \<and> (month a < month b \<or> (month a = month b \<and> dayOfMonth a < dayOfMonth b)))"

subsection \<open>Moments: a day with a wall-clock time\<close>

text \<open>
  A moment object is mutable; the functions below return the changed moment, and the
  callers say which names are bound to the one object. \<open>add\<close> counts hours on the
  clock and rolls over into the next days; changes of the clock for daylight saving
  are outside the model.
\<close>

record moment =
  m_day :: cdate
  hours :: nat
  minutes :: nat

definition startOf_day :: "cdate \<Rightarrow> moment" where
  "startOf_day d = \<lparr>m_day = d, hours = 0, minutes = 0\<rparr>"

definition is_leap :: "nat \<Rightarrow> bool" where
  "is_leap y \<longleftrightarrow> (y mod 4 = 0 \<and> y mod 100 \<noteq> 0) \<or> y mod 400 = 0"

definition days_in_month :: "nat \<Rightarrow> nat \<Rightarrow> nat" where
  "days_in_month y m =
     (if m = 2 then (if is_leap y then 29 else 28)
      else if m = 4 \<or> m = 6 \<or> m = 9 \<or> m = 11 then 30 else 31)"

definition next_day :: "cdate \<Rightarrow> cdate" where
  "next_day d =
     (if dayOfMonth d < days_in_month (year d) (month d) then d\<lparr>dayOfMonth := dayOfMonth d + 1\<rparr>
      else if month d < 12 then d\<lparr>month := month d + 1, dayOfMonth := 1\<rparr>
      else \<lparr>year = year d + 1, month = 1, dayOfMonth = 1\<rparr>)"

fun add_days :: "cdate \<Rightarrow> nat \<Rightarrow> cdate" where
  "add_days d 0 = d"
| "add_days d (Suc k) = add_days (next_day d) k"

text \<open>\<open>m.add(n, 'hours')\<close>\<close>

definition add_hours :: "moment \<Rightarrow> nat \<Rightarrow> moment" where
  "add_hours m n =
     m\<lparr>m_day := add_days (m_day m) ((hours m + n) div 24), hours := (hours m + n) mod 24\<rparr>"

text \<open>
  \<open>format('h:mm a')\<close>: \<open>h\<close> is \<open>hours % 12 || 12\<close>, \<open>a\<close> is \<open>pm\<close> when
  \<open>hours > 11\<close>.
\<close>

definition format_a :: "moment \<Rightarrow> string" where
  "format_a m = (if hours m > 11 then ''pm'' else ''am'')"

definition format_h_mm_a :: "moment \<Rightarrow> string" where
  "format_h_mm_a m =
     show_nat (if hours m mod 12 = 0 then 12 else hours m mod 12) @ '':'' @
     zeroFill (minutes m) 2 @ '' '' @ format_a m"

text \<open>The day of the week, 0 for Sunday, in the Gregorian calendar.\<close>

definition day_of_week :: "cdate \<Rightarrow> nat" where
  "day_of_week d =
     (let y = int (year d) - (if month d < 3 then 1 else 0)
      in nat ((y + y div 4 - y div 100 + y div 400
               + [0, 3, 2, 5, 0, 3, 5, 1, 4, 6, 2, 4] ! ((month d - 1) mod 12)
               + int (dayOfMonth d)) mod 7))"

definition weekdays :: "string list" where
  "weekdays = [''Sunday'', ''Monday'', ''Tuesday'', ''Wednesday'', ''Thursday'', ''Friday'',
               ''Saturday'']"

definition months :: "string list" where
  "months = [''January'', ''February'', ''March'', ''April'', ''May'', ''June'', ''July'',
             ''August'', ''September'', ''October'', ''November'', ''December'']"

text \<open>Token \<open>Do\<close>, the English ordinal of the locale.\<close>

definition ordinal :: "nat \<Rightarrow> string" where
  "ordinal n =
     show_nat n @
     (if (n mod 100) div 10 = 1 then ''th''
      else if n mod 10 = 1 then ''st''
      else if n mod 10 = 2 then ''nd''
      else if n mod 10 = 3 then ''rd'' else ''th'')"

text \<open>\<open>format('dddd MMMM Do[,] YYYY')\<close>\<close>

definition format_dddd_MMMM_Do_YYYY :: "cdate \<Rightarrow> string" where
  "format_dddd_MMMM_Do_YYYY d =
     weekdays ! (day_of_week d mod 7) @ '' '' @ months ! ((month d - 1) mod 12) @ '' '' @
     ordinal (dayOfMonth d) @ '','' @ '' '' @ format_YYYY (year d)"

subsection \<open>A reader of the wire format\<close>

text \<open>
  What the library's parser returns on a string that is exactly in the wire format:
  four digits, a hyphen, two digits for the day, a hyphen, two digits for the month,
  naming a day that exists. The theorems are stated for any parser; this one instantiates
  them.
\<close>

definition parse_wire :: "string \<Rightarrow> cdate option" where
  "parse_wire s =
     (if length s = 10 \<and> s ! 4 = CHR ''-'' \<and> s ! 7 = CHR ''-'' \<and>
         list_all is_digit (take 4 s) \<and> list_all is_digit (take 2 (drop 5 s)) \<and>
         list_all is_digit (drop 8 s)
      then let y = read_nat (take 4 s); d = read_nat (take 2 (drop 5 s)); m = read_nat (drop 8 s)
           in if 1 \<le> m \<and> m \<le> 12 \<and> 1 \<le> d \<and> d \<le> days_in_month y m
              then Some \<lparr>year = y, month = m, dayOfMonth = d\<rparr> else None
      else None)"

subsection \<open>A reader of shortened spellings\<close>

text \<open>
  The library's parser is not strict: for the tokens \<open>DD\<close> and \<open>MM\<close> it takes one or
  two digits, so it reads \<open>2024-16-6\<close> as it reads \<open>2024-16-06\<close>. The reader below
  returns what the library returns on three groups of digits between hyphens, four
  digits for the year and one or two for the day and for the month, and on a string
  without a digit, which the library rejects. It instantiates the theorems at such
  strings.
\<close>

fun fields :: "string \<Rightarrow> string list" where
  "fields [] = [[]]"
| "fields (c # s) =
     (if c = CHR ''-'' then [] # fields s
      else (case fields s of f # fs \<Rightarrow> (c # f) # fs | [] \<Rightarrow> [[c]]))"

definition parse_lenient :: "string \<Rightarrow> cdate option" where
  "parse_lenient s =
     (case fields s of
        [ys, ds, ms] \<Rightarrow>
          if length ys = 4 \<and> 1 \<le> length ds \<and> length ds \<le> 2 \<and>
             1 \<le> length ms \<and> length ms \<le> 2 \<and>
             list_all is_digit ys \<and> list_all is_digit ds \<and> list_all is_digit ms
          then let y = read_nat ys; d = read_nat ds; m = read_nat ms
               in if 1 \<le> m \<and> m \<le> 12 \<and> 1 \<le> d \<and> d \<le> days_in_month y m
                  then Some \<lparr>year = y, month = m, dayOfMonth = d\<rparr> else None
          else None
      | _ \<Rightarrow> None)"

section \<open>The schedule built from the fetched appointments\<close>

text \<open>
  An entry of the schedule object is the boolean \<open>true\<close> (the day cannot be booked)
  or an array of slots. A JavaScript array may have holes: an assignment beyond its
  length extends it and leaves the positions in between empty, and \<open>every\<close> skips
  them. An element is \<open>Some b\<close>, a hole is \<open>None\<close>.
\<close>

datatype entry = FullyBooked | Bitmap "bool option list"

type_synonym schedule = "string \<rightharpoonup> entry"

record fetched =
  date :: string
  slot :: nat

text \<open>\<open>Array(8).fill(false)\<close>\<close>

definition array8 :: "bool option list" where
  "array8 = replicate 8 (Some False)"

text \<open>\<open>slots[slot] = true\<close>\<close>

definition put_true :: "bool option list \<Rightarrow> nat \<Rightarrow> bool option list" where
  "put_true slots i =
     (if i < length slots then slots[i := Some True]
      else slots @ replicate (i - length slots) None @ [Some True])"

text \<open>\<open>slots.every(slot => slot === true)\<close>\<close>

definition every_true :: "bool option list \<Rightarrow> bool" where
  "every_true slots = list_all (\<lambda>x. x \<noteq> Some False) slots"

text \<open>
  \<open>currentSchedule\<close> is a plain object: a read of \<open>currentSchedule[date]\<close> also finds
  the members it inherits from \<open>Object.prototype\<close>, all of them truthy, as are both
  kinds of entry.
\<close>

definition object_prototype_keys :: "string list" where
  "object_prototype_keys =
     [''constructor'', ''__defineGetter__'', ''__defineSetter__'', ''hasOwnProperty'',
      ''__lookupGetter__'', ''__lookupSetter__'', ''isPrototypeOf'',
      ''propertyIsEnumerable'', ''toString'', ''valueOf'', ''__proto__'',
      ''toLocaleString'']"

definition truthy_at :: "schedule \<Rightarrow> string \<Rightarrow> bool" where
  "truthy_at currentSchedule k \<longleftrightarrow>
     currentSchedule k \<noteq> None \<or> k \<in> set object_prototype_keys"

text \<open>
  The callback of \<open>appointments.reduce\<close>. The presence test reads the key \<open>date\<close> as
  fetched, the writes use the reformatted \<open>dateString\<close>.
\<close>

definition reduce_step :: "(string \<Rightarrow> cdate option) \<Rightarrow> schedule \<Rightarrow> fetched \<Rightarrow> schedule" where
  "reduce_step parse currentSchedule appointment =
     (let dateString = reformat parse (date appointment);
          s1 = (if \<not> truthy_at currentSchedule (date appointment)
                then currentSchedule(dateString \<mapsto> Bitmap array8)
                else currentSchedule)
      in case s1 dateString of
           Some (Bitmap slots) \<Rightarrow> s1(dateString \<mapsto> Bitmap (put_true slots (slot appointment)))
         | _ \<Rightarrow> s1)"

definition initSchedule :: "cdate \<Rightarrow> schedule" where
  "initSchedule today = [format_YYYY_DD_MM today \<mapsto> FullyBooked]"

text \<open>
  The \<open>for (let day in schedule)\<close> pass: an entry with a non-zero \<open>length\<close> all of
  whose elements are \<open>true\<close> is replaced by \<open>true\<close>.
\<close>

definition collapse :: "schedule \<Rightarrow> schedule" where
  "collapse s = (\<lambda>day.
     case s day of
       Some (Bitmap slots) \<Rightarrow>
         if length slots \<noteq> 0 \<and> every_true slots then Some FullyBooked else Some (Bitmap slots)
     | e \<Rightarrow> e)"

text \<open>The schedule that \<open>handleFetch\<close> stores in the state.\<close>

definition handleFetch_schedule ::
  "(string \<Rightarrow> cdate option) \<Rightarrow> cdate \<Rightarrow> fetched list \<Rightarrow> schedule" where
  "handleFetch_schedule parse today appointments =
     collapse (if length appointments = 0 then initSchedule today
               else foldl (reduce_step parse) (initSchedule today) appointments)"

text \<open>
  \<open>checkDisableDate(day)\<close>, the date picker's \<open>shouldDisableDate\<close>: \<open>True\<close> means the
  day cannot be selected.
\<close>

definition checkDisableDate :: "schedule \<Rightarrow> cdate \<Rightarrow> cdate \<Rightarrow> bool" where
  "checkDisableDate sched today day \<longleftrightarrow>
     sched (format_YYYY_DD_MM day) = Some FullyBooked \<or> before day today"

section \<open>Regular expressions\<close>

text \<open>
  The two validators call \<open>regex.test\<close> on a pattern anchored at both ends and without
  back-references, so the test decides membership in a regular language. Strings are
  sequences of 8-bit characters. A pattern is a term of \<open>rexp\<close>; \<open>matches\<close> decides
  membership by derivatives.
\<close>

datatype rexp =
  Zero
| One
| Atom "char \<Rightarrow> bool"
| Alt rexp rexp
| Seq rexp rexp
| Star rexp

fun nullable :: "rexp \<Rightarrow> bool" where
  "nullable Zero = False"
| "nullable One = True"
| "nullable (Atom p) = False"
| "nullable (Alt r s) = (nullable r \<or> nullable s)"
| "nullable (Seq r s) = (nullable r \<and> nullable s)"
| "nullable (Star r) = True"

fun deriv :: "char \<Rightarrow> rexp \<Rightarrow> rexp" where
  "deriv c Zero = Zero"
| "deriv c One = Zero"
| "deriv c (Atom p) = (if p c then One else Zero)"
| "deriv c (Alt r s) = Alt (deriv c r) (deriv c s)"
| "deriv c (Seq r s) =
     (if nullable r then Alt (Seq (deriv c r) s) (deriv c s) else Seq (deriv c r) s)"
| "deriv c (Star r) = Seq (deriv c r) (Star r)"

definition matches :: "rexp \<Rightarrow> string \<Rightarrow> bool" where
  "matches r s = nullable (foldl (\<lambda>r c. deriv c r) r s)"

text \<open>
  The language of a pattern: the strings that the pattern, anchored at both ends,
  matches. \<open>matches\<close> is proved to decide it.
\<close>

definition conc :: "string set \<Rightarrow> string set \<Rightarrow> string set" where
  "conc A B = {u @ v | u v. u \<in> A \<and> v \<in> B}"

inductive_set star :: "string set \<Rightarrow> string set" for A :: "string set" where
  star_empty: "[] \<in> star A"
| star_more: "u \<in> A \<Longrightarrow> v \<in> star A \<Longrightarrow> u @ v \<in> star A"

fun lang :: "rexp \<Rightarrow> string set" where
  "lang Zero = {}"
| "lang One = {[]}"
| "lang (Atom p) = {[c] | c. p c}"
| "lang (Alt r s) = lang r \<union> lang s"
| "lang (Seq r s) = conc (lang r) (lang s)"
| "lang (Star r) = star (lang r)"

text \<open>\<open>r+\<close>, \<open>r?\<close>, a literal character, \<open>\\d\<close>, \<open>\\s\<close>, \<open>.\<close>\<close>

definition plus_re :: "rexp \<Rightarrow> rexp" where
  "plus_re r = Seq r (Star r)"

definition opt_re :: "rexp \<Rightarrow> rexp" where
  "opt_re r = Alt r One"

definition lit :: "char \<Rightarrow> rexp" where
  "lit c = Atom (\<lambda>x. x = c)"

definition digit :: rexp where
  "digit = Atom is_digit"

definition js_space :: "char \<Rightarrow> bool" where
  "js_space c \<longleftrightarrow>
     c \<in> set [CHR 0x09, CHR 0x0A, CHR 0x0B, CHR 0x0C, CHR 0x0D, CHR 0x20, CHR 0xA0]"

definition space :: rexp where
  "space = Atom js_space"

definition any_char :: rexp where
  "any_char = Atom (\<lambda>c. c \<noteq> CHR 0x0A \<and> c \<noteq> CHR 0x0D)"

text \<open>
  The class \<open>[^<>()\\[\\]\\.,;:\\s@\\"]\<close> of the e-mail pattern; the class of its domain
  part, written \<open>[^<>()[\\]\\.,;:\\s@\\"]\<close>, excludes the same characters.
\<close>

definition email_char :: "char \<Rightarrow> bool" where
  "email_char c \<longleftrightarrow> c \<notin> set (''<>()[].,;:@'' @ [CHR 0x22]) \<and> \<not> js_space c"

text \<open>
  \<open>/^(([^<>()\\[\\]\\.,;:\\s@\\"]+(\\.[^<>()\\[\\]\\.,;:\\s@\\"]+)*)|(\\".+\\"))@(([^<>()[\\]\\.,;:\\s@\\"]+\\.)+[^<>()[\\]\\.,;:\\s@\\"]{2,})$/i\<close>
  The pattern has no letters, so the flag \<open>i\<close> changes nothing.
\<close>

definition email_local :: rexp where
  "email_local =
     Alt (Seq (plus_re (Atom email_char)) (Star (Seq (lit (CHR ''.'')) (plus_re (Atom email_char)))))
         (Seq (lit (CHR 0x22)) (Seq (plus_re any_char) (lit (CHR 0x22))))"

definition email_domain :: rexp where
  "email_domain =
     Seq (plus_re (Seq (plus_re (Atom email_char)) (lit (CHR ''.''))))
         (Seq (Atom email_char) (Seq (Atom email_char) (Star (Atom email_char))))"

definition email_regex :: rexp where
  "email_regex = Seq email_local (Seq (lit (CHR ''@'')) email_domain)"

text \<open>\<open>/^(1\\s|1|)?((\\(\\d{3}\\))|\\d{3})(\\-|\\s)?(\\d{3})(\\-|\\s)?(\\d{4})$/\<close>\<close>

definition digits3 :: rexp where
  "digits3 = Seq digit (Seq digit digit)"

definition phone_regex :: rexp where
  "phone_regex =
     Seq (opt_re (Alt (Seq (lit (CHR ''1'')) space) (Alt (lit (CHR ''1'')) One)))
    (Seq (Alt (Seq (lit (CHR ''('')) (Seq digits3 (lit (CHR '')'')))) digits3)
    (Seq (opt_re (Alt (lit (CHR ''-'')) space))
    (Seq digits3
    (Seq (opt_re (Alt (lit (CHR ''-'')) space))
         (Seq digit digits3)))))"

text \<open>\<open>phone.replace(/\\D/g, '')\<close>, the server's normalisation of a telephone number.\<close>

definition strip_non_digits :: "string \<Rightarrow> string" where
  "strip_non_digits s = filter is_digit s"

section \<open>The booking form: component state and handlers\<close>

text \<open>
  The state of the \<open>App\<close> component. A field that the constructor does not set is
  \<open>undefined\<close> until a handler sets it, here \<open>None\<close>. The fields that only drive the
  layout (drawer, screen width, site configuration) are left out.
\<close>

record app_state =
  loading :: bool
  confirmationModalOpen :: bool
  confirmationTextVisible :: bool
  stepIndex :: nat
  appointmentMeridiem :: nat
  validEmail :: bool
  validPhone :: bool
  confirmationSnackbarOpen :: bool
  confirmationSnackbarMessage :: "string option"
  processed :: bool
  appointmentDate :: "cdate option"
  appointmentSlot :: "nat option"
  firstName :: "string option"
  lastName :: "string option"
  email :: "string option"
  phone :: "string option"
  schedule :: "schedule option"

definition constructor :: app_state where
  "constructor =
     \<lparr>loading = True, confirmationModalOpen = False, confirmationTextVisible = False,
      stepIndex = 0, appointmentMeridiem = 0, validEmail = True, validPhone = True,
      confirmationSnackbarOpen = False, confirmationSnackbarMessage = None,
      processed = False, appointmentDate = None, appointmentSlot = None,
      firstName = None, lastName = None, email = None, phone = None, schedule = None\<rparr>"

definition handleNextStep :: "app_state \<Rightarrow> app_state" where
  "handleNextStep st = (if stepIndex st < 3 then st\<lparr>stepIndex := stepIndex st + 1\<rparr> else st)"

definition handleSetAppointmentDate :: "cdate \<Rightarrow> app_state \<Rightarrow> app_state" where
  "handleSetAppointmentDate d st =
     (handleNextStep st)\<lparr>appointmentDate := Some d, confirmationTextVisible := True\<rparr>"

definition handleSetAppointmentSlot :: "nat \<Rightarrow> app_state \<Rightarrow> app_state" where
  "handleSetAppointmentSlot s st = (handleNextStep st)\<lparr>appointmentSlot := Some s\<rparr>"

definition handleSetAppointmentMeridiem :: "nat \<Rightarrow> app_state \<Rightarrow> app_state" where
  "handleSetAppointmentMeridiem meridiem st = st\<lparr>appointmentMeridiem := meridiem\<rparr>"

definition handleFetch ::
  "(string \<Rightarrow> cdate option) \<Rightarrow> cdate \<Rightarrow> fetched list \<Rightarrow> app_state \<Rightarrow> app_state" where
  "handleFetch parse today appointments st =
     st\<lparr>schedule := Some (handleFetch_schedule parse today appointments), loading := False\<rparr>"

definition validateEmail :: "string \<Rightarrow> app_state \<Rightarrow> app_state" where
  "validateEmail input st =
     (if matches email_regex input then st\<lparr>email := Some input, validEmail := True\<rparr>
      else st\<lparr>validEmail := False\<rparr>)"

definition validatePhone :: "string \<Rightarrow> app_state \<Rightarrow> app_state" where
  "validatePhone phoneNumber st =
     (if matches phone_regex phoneNumber then st\<lparr>phone := Some phoneNumber, validPhone := True\<rparr>
      else st\<lparr>validPhone := False\<rparr>)"

text \<open>A string is truthy when it is defined and not empty.\<close>

definition truthy_str :: "string option \<Rightarrow> bool" where
  "truthy_str v \<longleftrightarrow> (case v of None \<Rightarrow> False | Some s \<Rightarrow> s \<noteq> [])"

text \<open>\<open>contactFormFilled\<close> of \<open>render\<close>; the button that opens the dialog needs it.\<close>

definition contactFormFilled :: "app_state \<Rightarrow> bool" where
  "contactFormFilled st \<longleftrightarrow>
     truthy_str (firstName st) \<and> truthy_str (lastName st) \<and> truthy_str (phone st) \<and>
     truthy_str (email st) \<and> validPhone st \<and> validEmail st"

subsection \<open>The time buttons\<close>

datatype js_error = TypeError

record radio =
  label :: string
  val :: nat
  hidden :: bool
  disabled :: bool

text \<open>
  \<open>moment().hour(9).minute(0).add(slot, 'hours')\<close>; only the time of day is formatted.
\<close>

definition slot_time :: "cdate \<Rightarrow> nat \<Rightarrow> moment" where
  "slot_time today s = add_hours \<lparr>m_day = today, hours = 9, minutes = 0\<rparr> s"

text \<open>
  \<open>schedule[day] ? schedule[day][slot] : false\<close>. Indexing the boolean \<open>true\<close>, a
  position beyond the array or a hole gives \<open>undefined\<close>, which is falsy.
\<close>

definition scheduleDisabled :: "schedule \<Rightarrow> string \<Rightarrow> nat \<Rightarrow> bool" where
  "scheduleDisabled sched appointmentDateString s =
     (case sched appointmentDateString of
        None \<Rightarrow> False
      | Some FullyBooked \<Rightarrow> False
      | Some (Bitmap slots) \<Rightarrow>
          (if s < length slots then (case slots ! s of None \<Rightarrow> False | Some b \<Rightarrow> b)
           else False))"

definition meridiemDisabled :: "nat \<Rightarrow> moment \<Rightarrow> bool" where
  "meridiemDisabled meridiem t1 =
     (if meridiem \<noteq> 0 then format_a t1 = ''am'' else format_a t1 = ''pm'')"

text \<open>\<open>moment(this.state.appointmentDate)\<close>: without a chosen date, the current day.\<close>

definition moment_of :: "cdate \<Rightarrow> cdate option \<Rightarrow> cdate" where
  "moment_of today v = (case v of None \<Rightarrow> today | Some d \<Rightarrow> d)"

definition renderRadio :: "app_state \<Rightarrow> schedule \<Rightarrow> cdate \<Rightarrow> nat \<Rightarrow> radio" where
  "renderRadio st sched today s =
     (let appointmentDateString = format_YYYY_DD_MM (moment_of today (appointmentDate st));
          t1 = slot_time today s;
          t2 = slot_time today (s + 1);
          sd = scheduleDisabled sched appointmentDateString s;
          md = meridiemDisabled (appointmentMeridiem st) t1
      in \<lparr>label = format_h_mm_a t1 @ '' - '' @ format_h_mm_a t2, val = s,
          hidden = md, disabled = (sd \<or> md)\<rparr>)"

text \<open>
  \<open>renderAppointmentTimes\<close>: \<open>null\<close> while loading, else one button for each of the
  slots 0..7. Reading the schedule before it has been stored throws.
\<close>

definition renderAppointmentTimes :: "app_state \<Rightarrow> cdate \<Rightarrow> js_error + radio list option" where
  "renderAppointmentTimes st today =
     (if \<not> loading st then
        (case schedule st of
           None \<Rightarrow> Inl TypeError
         | Some sched \<Rightarrow> Inr (Some (map (renderRadio st sched today) [0..<8])))
      else Inr None)"

subsection \<open>Submitting\<close>

text \<open>
  The object that \<open>handleSubmit\<close> posts. String concatenation turns an undefined name
  into the text \<open>undefined\<close>; the JSON body has no member for an undefined field.
\<close>

record appointment =
  ap_date :: string
  ap_slot :: "nat option"
  ap_name :: string
  ap_email :: "string option"
  ap_phone :: "string option"

definition js_string :: "string option \<Rightarrow> string" where
  "js_string v = (case v of None \<Rightarrow> ''undefined'' | Some s \<Rightarrow> s)"

definition handleSubmit :: "app_state \<Rightarrow> cdate \<Rightarrow> appointment" where
  "handleSubmit st today =
     \<lparr>ap_date = format_YYYY_DD_MM (moment_of today (appointmentDate st)),
      ap_slot = appointmentSlot st,
      ap_name = js_string (firstName st) @ '' '' @ js_string (lastName st),
      ap_email = email st,
      ap_phone = phone st\<rparr>"

text \<open>The two continuations of the request.\<close>

definition handleSubmit_then :: "app_state \<Rightarrow> app_state" where
  "handleSubmit_then st =
     st\<lparr>confirmationSnackbarMessage := Some ''Appointment succesfully added!'',
        confirmationSnackbarOpen := True, processed := True\<rparr>"

definition handleSubmit_catch :: "app_state \<Rightarrow> app_state" where
  "handleSubmit_catch st =
     st\<lparr>confirmationSnackbarMessage := Some ''Appointment failed to save.'',
        confirmationSnackbarOpen := True\<rparr>"

text \<open>\<open>handleFetchError\<close>\<close>

definition handleFetchError :: "app_state \<Rightarrow> app_state" where
  "handleFetchError st =
     st\<lparr>confirmationSnackbarMessage := Some ''Error fetching data'',
        confirmationSnackbarOpen := True\<rparr>"

subsection \<open>The events of the form\<close>

text \<open>
  One event for each callback that \<open>render\<close> and \<open>componentWillMount\<close> install and that
  changes a field of the state above: the two outcomes of the initial fetch, the date
  picker, the radio buttons, the AM/PM select, the three step buttons, the four text
  fields, the button that opens the dialog and its Cancel button, the two continuations
  of the request that the Confirm button sends, and the snackbar's close request.
  \<open>run\<close> applies a sequence of events to the constructor's state. It does not ask
  whether the control that raises an event is enabled, so the sequences it covers
  include all those the user interface allows.
\<close>

datatype event =
    Fetched "fetched list"
  | FetchFailed
  | PickDate cdate
  | PickSlot nat
  | PickMeridiem nat
  | GoToStep nat
  | TypeFirstName string
  | TypeLastName string
  | TypeEmail string
  | TypePhone string
  | ToggleDialog
  | CancelDialog
  | Saved
  | SaveFailed
  | CloseSnackbar

fun dispatch :: "(string \<Rightarrow> cdate option) \<Rightarrow> cdate \<Rightarrow> app_state \<Rightarrow> event \<Rightarrow> app_state" where
  "dispatch parse today st (Fetched appointments) = handleFetch parse today appointments st"
| "dispatch parse today st FetchFailed = handleFetchError st"
| "dispatch parse today st (PickDate d) = handleSetAppointmentDate d st"
| "dispatch parse today st (PickSlot s) = handleSetAppointmentSlot s st"
| "dispatch parse today st (PickMeridiem m) = handleSetAppointmentMeridiem m st"
| "dispatch parse today st (GoToStep i) = st\<lparr>stepIndex := i\<rparr>"
| "dispatch parse today st (TypeFirstName v) = st\<lparr>firstName := Some v\<rparr>"
| "dispatch parse today st (TypeLastName v) = st\<lparr>lastName := Some v\<rparr>"
| "dispatch parse today st (TypeEmail v) = validateEmail v st"
| "dispatch parse today st (TypePhone v) = validatePhone v st"
| "dispatch parse today st ToggleDialog = st\<lparr>confirmationModalOpen := \<not> confirmationModalOpen st\<rparr>"
| "dispatch parse today st CancelDialog = st\<lparr>confirmationModalOpen := False\<rparr>"
| "dispatch parse today st Saved = handleSubmit_then st"
| "dispatch parse today st SaveFailed = handleSubmit_catch st"
| "dispatch parse today st CloseSnackbar = st\<lparr>confirmationSnackbarOpen := False\<rparr>"

definition run :: "(string \<Rightarrow> cdate option) \<Rightarrow> cdate \<Rightarrow> event list \<Rightarrow> app_state" where
  "run parse today evs = foldl (dispatch parse today) constructor evs"

section \<open>The server's handler of a new appointment\<close>

record config =
  bucket_slug :: string
  bucket_write_key :: string
  twilio_number :: string

record sms =
  sms_to :: string
  sms_from :: string
  sms_body :: string

record cosmic_object =
  title :: string
  type_slug :: string
  write_key :: string
  mf_date :: string
  mf_slot :: "nat option"
  mf_email :: "string option"
  mf_phone :: string

text \<open>An invalid moment stays invalid under every operation and formats as such.\<close>

definition format_or_invalid :: "('a \<Rightarrow> string) \<Rightarrow> 'a option \<Rightarrow> string" where
  "format_or_invalid f v = (case v of None \<Rightarrow> ''Invalid date'' | Some x \<Rightarrow> f x)"

text \<open>
  The synchronous part of \<open>app.post('/api/appointments')\<close>: the text message and the
  object for the store. \<open>date.hour(9).add(slot, 'hours')\<close> changes \<open>date\<close> itself and
  returns it, so \<open>time\<close> and \<open>date\<close> are one moment, which is formatted three times.
  Adding an undefined number of hours adds none. A request without \<open>phone\<close> throws
  at \<open>appointment.phone.replace\<close>.
\<close>

definition post_appointments ::
  "(string \<Rightarrow> cdate option) \<Rightarrow> config \<Rightarrow> appointment \<Rightarrow> js_error + sms \<times> cosmic_object" where
  "post_appointments parse cfg req =
     (case ap_phone req of
        None \<Rightarrow> Inl TypeError
      | Some p \<Rightarrow>
          (let phone' = strip_non_digits p;
               date0 = map_option startOf_day (parse (ap_date req));
               time = map_option
                        (\<lambda>m. add_hours (m\<lparr>hours := 9\<rparr>) (case ap_slot req of None \<Rightarrow> 0 | Some n \<Rightarrow> n))
                        date0;
               smsBody = ap_name req @ '', this message is to confirm your appointment at '' @
                         format_or_invalid format_h_mm_a time @ '' on '' @
                         format_or_invalid (format_dddd_MMMM_Do_YYYY \<circ> m_day) time @ ''.''
           in Inr (\<lparr>sms_to = ''+1'' @ phone', sms_from = twilio_number cfg, sms_body = smsBody\<rparr>,
                   \<lparr>title = ap_name req, type_slug = ''appointments'',
                    write_key = bucket_write_key cfg,
                    mf_date = format_or_invalid (format_YYYY_DD_MM \<circ> m_day) time,
                    mf_slot = ap_slot req, mf_email = ap_email req, mf_phone = phone'\<rparr>)))"

text \<open>
  The two outgoing calls. Whether the text message can be sent and whether the store
  accepts the object is decided outside; \<open>twilio_ok\<close> and \<open>cosmic_ok\<close> stand for the two
  services. The callback of the first call only writes to the console; the response
  is sent by the continuations of the second.
\<close>

record world =
  sent :: "sms list"
  console :: "string list"
  stored :: "cosmic_object list"

definition twilio_create :: "(sms \<Rightarrow> bool) \<Rightarrow> sms \<Rightarrow> world \<Rightarrow> world" where
  "twilio_create twilio_ok msg w =
     (if twilio_ok msg then w\<lparr>sent := sent w @ [msg], console := console w @ [''message'']\<rparr>
      else w\<lparr>console := console w @ [''err'']\<rparr>)"

definition cosmic_add :: "(cosmic_object \<Rightarrow> bool) \<Rightarrow> cosmic_object \<Rightarrow> world \<Rightarrow> world \<times> string" where
  "cosmic_add cosmic_ok obj w =
     (if cosmic_ok obj then (w\<lparr>stored := stored w @ [obj]\<rparr>, ''succes'') else (w, ''error ''))"

definition api_appointments ::
  "(string \<Rightarrow> cdate option) \<Rightarrow> config \<Rightarrow> (sms \<Rightarrow> bool) \<Rightarrow> (cosmic_object \<Rightarrow> bool) \<Rightarrow>
   appointment \<Rightarrow> world \<Rightarrow> js_error + world \<times> string" where
  "api_appointments parse cfg twilio_ok cosmic_ok req w =
     (case post_appointments parse cfg req of
        Inl e \<Rightarrow> Inl e
      | Inr (msg, obj) \<Rightarrow> Inr (cosmic_add cosmic_ok obj (twilio_create twilio_ok msg w)))"

section \<open>Notions used in the statements and the proofs\<close>

text \<open>
  A date string is in wire format for a parser when reading and printing it gives the
  string back: \<open>moment(s, 'YYYY-DD-MM').format('YYYY-DD-MM') = s\<close>. Every date the
  server writes to the store is printed by \<open>format('YYYY-DD-MM')\<close>.
\<close>

definition wire_format :: "(string \<Rightarrow> cdate option) \<Rightarrow> string \<Rightarrow> bool" where
  "wire_format parse s \<longleftrightarrow> reformat parse s = s"

text \<open>
  What the reduce callback does with a record whose date is in wire format, when the
  test and the writes use one key: to the entry of the day, and to the schedule.
\<close>

definition entry_add :: "entry option \<Rightarrow> nat \<Rightarrow> entry option" where
  "entry_add e i =
     (case e of
        None \<Rightarrow> Some (Bitmap (put_true array8 i))
      | Some FullyBooked \<Rightarrow> Some FullyBooked
      | Some (Bitmap slots) \<Rightarrow> Some (Bitmap (put_true slots i)))"

definition mark :: "schedule \<Rightarrow> fetched \<Rightarrow> schedule" where
  "mark s r = s(date r := entry_add (s (date r)) (slot r))"

text \<open>
  An array of the schedule has at least the eight filled positions, and no \<open>false\<close>
  beyond them.
\<close>

definition tidy :: "bool option list \<Rightarrow> bool" where
  "tidy a \<longleftrightarrow> 8 \<le> length a \<and> (\<forall>j<length a. 8 \<le> j \<longrightarrow> a ! j \<noteq> Some False)"

definition all_tidy :: "schedule \<Rightarrow> bool" where
  "all_tidy s \<longleftrightarrow> (\<forall>k a. s k = Some (Bitmap a) \<longrightarrow> tidy a)"

text \<open>
  The slot of a fetched appointment is marked in the entry of its day.
\<close>

definition marked :: "schedule \<Rightarrow> fetched \<Rightarrow> bool" where
  "marked s r \<longleftrightarrow>
     (case s (date r) of
        None \<Rightarrow> False
      | Some FullyBooked \<Rightarrow> True
      | Some (Bitmap a) \<Rightarrow> slot r < length a \<and> a ! slot r = Some True)"

text \<open>
  What the reduce callback does with a record whose date names no member of
  \<open>Object.prototype\<close>, in a schedule all of whose keys are in wire format: to the entry
  under the reformatted date, and to the schedule. A date in wire format marks its slot
  in the entry; any other date is no key of the schedule, and the entry is started
  afresh.
\<close>

definition keys_wire :: "(string \<Rightarrow> cdate option) \<Rightarrow> schedule \<Rightarrow> bool" where
  "keys_wire parse s \<longleftrightarrow> (\<forall>k. s k \<noteq> None \<longrightarrow> wire_format parse k)"

definition entry_step ::
  "(string \<Rightarrow> cdate option) \<Rightarrow> fetched \<Rightarrow> entry option \<Rightarrow> entry option" where
  "entry_step parse r e =
     (if wire_format parse (date r) then entry_add e (slot r)
      else Some (Bitmap (put_true array8 (slot r))))"

definition key_step :: "(string \<Rightarrow> cdate option) \<Rightarrow> schedule \<Rightarrow> fetched \<Rightarrow> schedule" where
  "key_step parse s r =
     s(reformat parse (date r) := entry_step parse r (s (reformat parse (date r))))"

text \<open>The entry under one key after a list of such steps.\<close>

fun entry_fold ::
  "(string \<Rightarrow> cdate option) \<Rightarrow> string \<Rightarrow> entry option \<Rightarrow> fetched list \<Rightarrow> entry option" where
  "entry_fold parse k e [] = e"
| "entry_fold parse k e (r # rs) =
     entry_fold parse k (if reformat parse (date r) = k then entry_step parse r e else e) rs"

text \<open>The last input of a text field that its pattern accepted, if any.\<close>

definition last_accepted :: "rexp \<Rightarrow> string list \<Rightarrow> string option" where
  "last_accepted r inputs =
     (let accepted = filter (matches r) inputs
      in if accepted = [] then None else Some (last accepted))"

text \<open>What was typed into the e-mail field and into the telephone field, in order.\<close>

fun email_inputs :: "event list \<Rightarrow> string list" where
  "email_inputs [] = []"
| "email_inputs (TypeEmail v # evs) = v # email_inputs evs"
| "email_inputs (_ # evs) = email_inputs evs"

fun phone_inputs :: "event list \<Rightarrow> string list" where
  "phone_inputs [] = []"
| "phone_inputs (TypePhone v # evs) = v # phone_inputs evs"
| "phone_inputs (_ # evs) = phone_inputs evs"

section \<open>Decimal digits and the wire format\<close>

lemma show_nat_digits: "\<forall>c\<in>set (show_nat n). is_digit c"
proof (induction n rule: show_nat.induct)
  case (1 n)
  have "n mod 10 < length ''0123456789''" by simp
  then have "is_digit (digit_char n)"
    unfolding is_digit_def digit_char_def by (rule nth_mem)
  with 1 show ?case
    by (subst show_nat.simps) auto
qed

lemma zeroFill_digits: "\<forall>c\<in>set (zeroFill n w). is_digit c"
proof -
  have "is_digit (CHR ''0'')" by (simp add: is_digit_def)
  with show_nat_digits [of n] show ?thesis by (auto simp: zeroFill_def)
qed

lemma not_digit_dash: "\<not> is_digit (CHR ''-'')" by (simp add: is_digit_def)

lemma zeroFill_no_dash: "CHR ''-'' \<notin> set (zeroFill n w)"
  using zeroFill_digits [of n w] not_digit_dash by blast

lemma format_YYYY_no_dash: "CHR ''-'' \<notin> set (format_YYYY y)"
  by (simp add: format_YYYY_def zeroFill_no_dash)

lemma digit_val_digit_char: "digit_val (digit_char n) = n mod 10"
proof -
  have "\<forall>m<10. digit_val (''0123456789'' ! m) = m"
    by (simp add: digit_val_def eval_nat_numeral less_Suc_eq)
  moreover have "n mod 10 < 10" by simp
  ultimately show ?thesis by (simp add: digit_char_def)
qed

lemma read_nat_snoc: "read_nat (s @ [c]) = 10 * read_nat s + digit_val c"
  by (simp add: read_nat_def)

lemma read_nat_show_nat: "read_nat (show_nat n) = n"
proof (induction n rule: show_nat.induct)
  case (1 n)
  show ?case
  proof (cases "n < 10")
    case True
    then show ?thesis
      by (subst show_nat.simps) (simp add: read_nat_def digit_val_digit_char)
  next
    case False
    then have "read_nat (show_nat n) = 10 * read_nat (show_nat (n div 10)) + n mod 10"
      by (subst show_nat.simps) (simp add: read_nat_snoc digit_val_digit_char)
    with False 1 show ?thesis by simp
  qed
qed

lemma read_nat_zeros: "read_nat (replicate k (CHR ''0'') @ s) = read_nat s"
proof (induction k)
  case 0
  show ?case by simp
next
  case (Suc k)
  have "digit_val (CHR ''0'') = 0" by (simp add: digit_val_def)
  then have "read_nat (replicate (Suc k) (CHR ''0'') @ s) = read_nat (replicate k (CHR ''0'') @ s)"
    by (simp add: read_nat_def)
  with Suc show ?case by simp
qed

lemma read_nat_zeroFill: "read_nat (zeroFill n w) = n"
  by (simp add: zeroFill_def read_nat_zeros read_nat_show_nat)

lemma zeroFill_inj: "zeroFill a w = zeroFill b w' \<Longrightarrow> a = b"
  by (metis read_nat_zeroFill)

lemma show_nat_inj: "show_nat a = show_nat b \<Longrightarrow> a = b"
  by (metis read_nat_show_nat)

lemma format_YYYY_inj: "format_YYYY a = format_YYYY b \<Longrightarrow> a = b"
  by (simp add: format_YYYY_def zeroFill_inj)

lemma split_at_dash:
  assumes "a @ CHR ''-'' # b = a' @ CHR ''-'' # b'"
    and "CHR ''-'' \<notin> set a" and "CHR ''-'' \<notin> set a'"
  shows "a = a' \<and> b = b'"
  using assms
proof (induction a arbitrary: a')
  case Nil
  then show ?case by (cases a') auto
next
  case (Cons x a)
  then show ?case by (cases a') auto
qed

text \<open>
  Different days have different keys in the schedule.
\<close>

lemma format_YYYY_DD_MM_inj:
  assumes "format_YYYY_DD_MM a = format_YYYY_DD_MM b"
  shows "a = b"
proof -
  from assms have
    "format_YYYY (year a) @ CHR ''-'' # (zeroFill (dayOfMonth a) 2 @ CHR ''-'' # zeroFill (month a) 2)
     = format_YYYY (year b) @ CHR ''-'' # (zeroFill (dayOfMonth b) 2 @ CHR ''-'' # zeroFill (month b) 2)"
    by (simp add: format_YYYY_DD_MM_def)
  from split_at_dash [OF this format_YYYY_no_dash format_YYYY_no_dash]
  have y: "format_YYYY (year a) = format_YYYY (year b)"
    and rest: "zeroFill (dayOfMonth a) 2 @ CHR ''-'' # zeroFill (month a) 2
               = zeroFill (dayOfMonth b) 2 @ CHR ''-'' # zeroFill (month b) 2"
    by simp_all
  from split_at_dash [OF rest zeroFill_no_dash zeroFill_no_dash]
  have "zeroFill (dayOfMonth a) 2 = zeroFill (dayOfMonth b) 2"
    and "zeroFill (month a) 2 = zeroFill (month b) 2"
    by simp_all
  with y have "year a = year b" "dayOfMonth a = dayOfMonth b" "month a = month b"
    by (auto dest: format_YYYY_inj zeroFill_inj)
  then show ?thesis by simp
qed

lemma dash_in_format: "CHR ''-'' \<in> set (format_YYYY_DD_MM d)"
  by (simp add: format_YYYY_DD_MM_def)

text \<open>
  A reformatted date is never the name of a member of \<open>Object.prototype\<close>.
\<close>

lemma reformat_not_inherited: "reformat parse x \<notin> set object_prototype_keys"
proof (cases "parse x")
  case None
  then show ?thesis by (simp add: reformat_def object_prototype_keys_def)
next
  case (Some d)
  have "\<forall>k\<in>set object_prototype_keys. CHR ''-'' \<notin> set k"
    by (simp add: object_prototype_keys_def)
  with dash_in_format [of d] Some show ?thesis
    by (auto simp: reformat_def)
qed

lemma fmt_2024_16_06:
  "format_YYYY_DD_MM \<lparr>year = 2024, month = 6, dayOfMonth = 16\<rparr> = ''2024-16-06''"
  by code_simp

lemma fmt_2024_15_06:
  "format_YYYY_DD_MM \<lparr>year = 2024, month = 6, dayOfMonth = 15\<rparr> = ''2024-15-06''"
  by code_simp

lemma fmt_16_neq_15:
  "format_YYYY_DD_MM \<lparr>year = 2024, month = 6, dayOfMonth = 16\<rparr> \<noteq>
   format_YYYY_DD_MM \<lparr>year = 2024, month = 6, dayOfMonth = 15\<rparr>"
  by (simp add: fmt_2024_16_06 fmt_2024_15_06)

lemma parse_2024_16_06:
  "parse_wire ''2024-16-06'' = Some \<lparr>year = 2024, month = 6, dayOfMonth = 16\<rparr>"
  by code_simp

lemma wire_2024_16_06: "wire_format parse_wire ''2024-16-06''"
  by code_simp

lemma wire_2024_15_06: "wire_format parse_wire ''2024-15-06''"
  by code_simp

lemma lenient_2024_15_6:
  "parse_lenient ''2024-15-6'' = Some \<lparr>year = 2024, month = 6, dayOfMonth = 15\<rparr>"
  by code_simp

lemma lenient_2024_16_6:
  "parse_lenient ''2024-16-6'' = Some \<lparr>year = 2024, month = 6, dayOfMonth = 16\<rparr>"
  by code_simp

lemma lenient_2024_16_06:
  "parse_lenient ''2024-16-06'' = Some \<lparr>year = 2024, month = 6, dayOfMonth = 16\<rparr>"
  by code_simp

lemma lenient_constructor: "parse_lenient ''constructor'' = None"
  by code_simp

lemma lenient_Invalid_date: "parse_lenient ''Invalid date'' = None"
  by code_simp

section \<open>The fold over the fetched appointments\<close>

subsection \<open>Writing into an array\<close>

lemma length_put_true: "length (put_true a i) = max (length a) (Suc i)"
  by (auto simp: put_true_def)

lemma nth_put_true:
  "j < max (length a) (Suc i) \<Longrightarrow>
   put_true a i ! j = (if j = i then Some True else if j < length a then a ! j else None)"
  by (auto simp: put_true_def nth_append less_Suc_eq)

lemma put_true_idem: "put_true (put_true a i) i = put_true a i"
  by (rule nth_equalityI) (auto simp: length_put_true nth_put_true)

lemma put_true_commute: "put_true (put_true a i) j = put_true (put_true a j) i"
  by (rule nth_equalityI) (auto simp: length_put_true nth_put_true)

lemma every_true_iff: "every_true a \<longleftrightarrow> (\<forall>j<length a. a ! j \<noteq> Some False)"
  by (simp add: every_true_def list_all_length)

lemma every_true_put_true: "every_true a \<Longrightarrow> every_true (put_true a i)"
  by (auto simp: every_true_iff length_put_true nth_put_true)

lemma tidy_array8: "tidy array8"
  by (simp add: tidy_def array8_def)

lemma tidy_put_true: "tidy a \<Longrightarrow> tidy (put_true a i)"
  by (auto simp: tidy_def length_put_true nth_put_true)

subsection \<open>One step of the fold\<close>

lemma entry_add_idem: "entry_add (entry_add e i) i = entry_add e i"
  by (simp add: entry_add_def put_true_idem split: option.splits entry.splits)

lemma entry_add_commute: "entry_add (entry_add e i) j = entry_add (entry_add e j) i"
  by (simp add: entry_add_def put_true_commute split: option.splits entry.splits)

lemma mark_idem: "mark (mark s r) r = mark s r"
  by (simp add: mark_def entry_add_idem)

lemma mark_commute: "mark (mark s r) r' = mark (mark s r') r"
  by (auto simp: mark_def entry_add_commute fun_eq_iff)

text \<open>
  On a date in wire format the presence test and the writes use the same key, and the
  callback is \<open>mark\<close>.
\<close>

lemma reduce_step_wire:
  assumes "wire_format parse (date r)"
  shows "reduce_step parse s r = mark s r"
proof -
  from assms have k: "reformat parse (date r) = date r" by (simp add: wire_format_def)
  with reformat_not_inherited [of parse "date r"]
  have "date r \<notin> set object_prototype_keys" by simp
  then have t: "truthy_at s (date r) \<longleftrightarrow> s (date r) \<noteq> None" by (simp add: truthy_at_def)
  show ?thesis
    by (cases "s (date r)")
      (auto simp: reduce_step_def mark_def entry_add_def k t Let_def fun_eq_iff
            split: entry.splits)
qed

text \<open>
  What the parser reads back as printed is in wire format.
\<close>

lemma round_trip_wire:
  "parse (format_YYYY_DD_MM d) = Some d \<Longrightarrow> wire_format parse (format_YYYY_DD_MM d)"
  by (simp add: wire_format_def reformat_def)

text \<open>
  When the date as fetched names nothing in the schedule, the entry under the
  reformatted key is started afresh, whatever it was. For a date in wire format the two
  keys are one, and nothing is lost.
\<close>

lemma reduce_step_fresh:
  "\<not> truthy_at s (date r) \<Longrightarrow>
   reduce_step parse s r (reformat parse (date r)) = Some (Bitmap (put_true array8 (slot r)))"
  by (simp add: reduce_step_def Let_def)

lemma foldl_reduce_wire:
  "\<forall>r\<in>set rs. wire_format parse (date r) \<Longrightarrow>
   foldl (reduce_step parse) s rs = foldl mark s rs"
  by (induction rs arbitrary: s) (simp_all add: reduce_step_wire)

subsection \<open>The order and the number of the records do not matter\<close>

lemma mark_foldl: "mark (foldl mark s rs) r = foldl mark (mark s r) rs"
  by (induction rs arbitrary: s) (simp_all add: mark_commute)

lemma mark_absorbed: "r \<in> set rs \<Longrightarrow> mark (foldl mark s rs) r = foldl mark s rs"
proof (induction rs arbitrary: s)
  case Nil
  then show ?case by simp
next
  case (Cons x xs)
  show ?case
  proof (cases "r = x")
    case True
    then show ?thesis by (simp add: mark_foldl mark_idem)
  next
    case False
    with Cons show ?thesis by simp
  qed
qed

lemma foldl_mark_absorb: "set ys \<subseteq> set xs \<Longrightarrow> foldl mark s (xs @ ys) = foldl mark s xs"
proof (induction ys rule: rev_induct)
  case Nil
  show ?case by simp
next
  case (snoc y ys)
  then have "foldl mark s (xs @ ys) = foldl mark s xs" and "y \<in> set xs" by simp_all
  then show ?case by (simp add: mark_absorbed)
qed

lemma foldl_mark_swap: "foldl mark s (xs @ ys) = foldl mark s (ys @ xs)"
proof (induction ys arbitrary: s)
  case Nil
  show ?case by simp
next
  case (Cons y ys)
  have "foldl mark s (xs @ y # ys) = foldl mark (mark (foldl mark s xs) y) ys" by simp
  also have "\<dots> = foldl mark (foldl mark (mark s y) xs) ys" by (simp add: mark_foldl)
  also have "\<dots> = foldl mark (mark s y) (xs @ ys)" by simp
  also have "\<dots> = foldl mark (mark s y) (ys @ xs)" by (rule Cons.IH)
  finally show ?case by simp
qed

lemma foldl_mark_set:
  assumes "set xs = set ys"
  shows "foldl mark s xs = foldl mark s ys"
proof -
  from assms have a: "set ys \<subseteq> set xs" and b: "set xs \<subseteq> set ys" by simp_all
  have "foldl mark s xs = foldl mark s (xs @ ys)"
    by (rule foldl_mark_absorb [OF a, symmetric])
  also have "\<dots> = foldl mark s (ys @ xs)" by (rule foldl_mark_swap)
  also have "\<dots> = foldl mark s ys" by (rule foldl_mark_absorb [OF b])
  finally show ?thesis .
qed

lemma handleFetch_schedule_foldl:
  "handleFetch_schedule parse today rs =
   collapse (foldl (reduce_step parse) (initSchedule today) rs)"
  by (cases rs) (simp_all add: handleFetch_schedule_def)

lemma handleFetch_schedule_set:
  assumes "\<forall>r\<in>set xs. wire_format parse (date r)" and "set ys = set xs"
  shows "handleFetch_schedule parse today ys = handleFetch_schedule parse today xs"
proof -
  from assms have "\<forall>r\<in>set ys. wire_format parse (date r)" by simp
  with assms show ?thesis
    by (simp add: handleFetch_schedule_foldl foldl_reduce_wire foldl_mark_set [of ys xs])
qed

lemma handleFetch_schedule_snoc:
  assumes "wire_format parse (date r)"
  shows "handleFetch_schedule parse today (rs @ [r]) =
         collapse (mark (foldl (reduce_step parse) (initSchedule today) rs) r)"
  using assms by (simp add: handleFetch_schedule_foldl reduce_step_wire)

subsection \<open>Invariants of the fold\<close>

lemma all_tidy_init: "all_tidy (initSchedule today)"
  by (simp add: all_tidy_def initSchedule_def)

lemma all_tidy_step: "all_tidy s \<Longrightarrow> all_tidy (reduce_step parse s r)"
  unfolding all_tidy_def reduce_step_def Let_def
  by (auto simp: tidy_array8 tidy_put_true split: option.splits entry.splits if_splits)

lemma all_tidy_foldl: "all_tidy s \<Longrightarrow> all_tidy (foldl (reduce_step parse) s rs)"
  by (induction rs arbitrary: s) (simp_all add: all_tidy_step)

lemma marked_mark_self: "marked (mark s r) r"
  by (auto simp: marked_def mark_def entry_add_def length_put_true nth_put_true
      split: option.splits entry.splits)

lemma marked_mark_other: "marked s r' \<Longrightarrow> marked (mark s r) r'"
  by (auto simp: marked_def mark_def entry_add_def length_put_true nth_put_true
      split: option.splits entry.splits)

lemma marked_foldl: "r \<in> set rs \<Longrightarrow> marked (foldl mark s rs) r"
proof (induction rs arbitrary: s rule: rev_induct)
  case Nil
  then show ?case by simp
next
  case (snoc x xs)
  then show ?case by (auto simp: marked_mark_self marked_mark_other)
qed

lemma today_kept: "foldl mark s rs k = Some FullyBooked" if "s k = Some FullyBooked"
  using that
proof (induction rs arbitrary: s)
  case Nil
  then show ?case by simp
next
  case (Cons r rs)
  from Cons.prems have "mark s r k = Some FullyBooked"
    by (auto simp: mark_def entry_add_def)
  then show ?case by (simp add: Cons.IH)
qed

lemma today_fully_booked:
  assumes "\<forall>r\<in>set rs. wire_format parse (date r)"
  shows "handleFetch_schedule parse today rs (format_YYYY_DD_MM today) = Some FullyBooked"
proof -
  have "foldl mark (initSchedule today) rs (format_YYYY_DD_MM today) = Some FullyBooked"
    by (rule today_kept) (simp add: initSchedule_def)
  with assms show ?thesis
    by (simp add: handleFetch_schedule_foldl foldl_reduce_wire collapse_def)
qed

subsection \<open>The collapse pass\<close>

lemma collapse_init: "collapse (initSchedule today) = initSchedule today"
  by (auto simp: collapse_def initSchedule_def fun_eq_iff)

lemma handleFetch_schedule_Nil:
  "handleFetch_schedule parse today [] = [format_YYYY_DD_MM today \<mapsto> FullyBooked]"
  by (simp add: handleFetch_schedule_def collapse_init) (simp add: initSchedule_def)

lemma collapse_Bitmap:
  assumes "all_tidy s" and "collapse s k = Some (Bitmap a)"
  shows "\<exists>j<8. j < length a \<and> a ! j = Some False"
proof -
  from assms(2) have sk: "s k = Some (Bitmap a)" and ne: "\<not> (length a \<noteq> 0 \<and> every_true a)"
    by (auto simp: collapse_def split: option.splits entry.splits if_splits)
  with assms(1) have t: "tidy a" by (simp add: all_tidy_def)
  then have "length a \<noteq> 0" by (auto simp: tidy_def)
  with ne obtain j where "j < length a" "a ! j = Some False"
    by (auto simp: every_true_iff)
  moreover with t have "j < 8" by (auto simp: tidy_def)
  ultimately show ?thesis by blast
qed

lemma collapse_covered:
  assumes tidy: "all_tidy s"
    and cov: "\<forall>i<8. \<exists>r. date r = k \<and> slot r = i \<and> marked s r"
  shows "collapse s k = Some FullyBooked"
proof (cases "s k")
  case None
  from cov obtain r where "date r = k" "marked s r" by (metis zero_less_numeral)
  with None show ?thesis by (simp add: marked_def)
next
  case (Some e)
  show ?thesis
  proof (cases e)
    case FullyBooked
    with Some show ?thesis by (simp add: collapse_def)
  next
    case (Bitmap a)
    with Some tidy have t: "tidy a" by (simp add: all_tidy_def)
    have "a ! j \<noteq> Some False" if "j < length a" for j
    proof (cases "j < 8")
      case True
      with cov obtain r where "date r = k" "slot r = j" "marked s r" by blast
      with Some Bitmap show ?thesis by (simp add: marked_def)
    next
      case False
      with t that show ?thesis by (simp add: tidy_def)
    qed
    then have "every_true a" by (simp add: every_true_iff)
    moreover from t have "length a \<noteq> 0" by (auto simp: tidy_def)
    ultimately show ?thesis using Some Bitmap by (simp add: collapse_def)
  qed
qed

lemma fully_booked_when_covered:
  assumes wire: "\<forall>r\<in>set rs. wire_format parse (date r)"
    and cov: "\<forall>i<8. \<lparr>date = k, slot = i\<rparr> \<in> set rs"
  shows "handleFetch_schedule parse today rs k = Some FullyBooked"
proof -
  let ?s = "foldl (reduce_step parse) (initSchedule today) rs"
  have "all_tidy ?s" by (simp add: all_tidy_foldl all_tidy_init)
  moreover have "\<forall>i<8. \<exists>r. date r = k \<and> slot r = i \<and> marked ?s r"
  proof (intro allI impI)
    fix i :: nat
    assume "i < 8"
    with cov have "\<lparr>date = k, slot = i\<rparr> \<in> set rs" by simp
    then have "marked (foldl mark (initSchedule today) rs) \<lparr>date = k, slot = i\<rparr>"
      by (rule marked_foldl)
    with wire show "\<exists>r. date r = k \<and> slot r = i \<and> marked ?s r"
      by (auto simp: foldl_reduce_wire intro!: exI [of _ "\<lparr>date = k, slot = i\<rparr>"])
  qed
  ultimately show ?thesis
    by (simp add: handleFetch_schedule_foldl collapse_covered)
qed

lemma no_full_bitmap:
  assumes "handleFetch_schedule parse today rs k = Some (Bitmap a)"
  shows "\<exists>j<8. j < length a \<and> a ! j = Some False"
proof -
  have "all_tidy (foldl (reduce_step parse) (initSchedule today) rs)"
    by (simp add: all_tidy_foldl all_tidy_init)
  with assms show ?thesis
    by (auto simp: handleFetch_schedule_foldl dest: collapse_Bitmap)
qed

lemma collapse_mark_full:
  assumes "collapse s k = Some FullyBooked"
  shows "collapse (mark s r) k = Some FullyBooked"
proof (cases "k = date r")
  case False
  with assms show ?thesis by (simp add: collapse_def mark_def)
next
  case True
  from assms consider "s k = Some FullyBooked"
    | a where "s k = Some (Bitmap a)" "length a \<noteq> 0" "every_true a"
    by (auto simp: collapse_def split: option.splits entry.splits if_splits)
  then show ?thesis
  proof cases
    case 1
    with True show ?thesis by (simp add: collapse_def mark_def entry_add_def)
  next
    case 2
    with True show ?thesis
      by (simp add: collapse_def mark_def entry_add_def every_true_put_true length_put_true)
  qed
qed

lemma collapse_mark_bit:
  assumes "collapse s k = Some (Bitmap a)" and "j < length a" and "a ! j = Some True"
  shows "collapse (mark s r) k = Some FullyBooked \<or>
         (\<exists>a'. collapse (mark s r) k = Some (Bitmap a') \<and> j < length a' \<and> a' ! j = Some True)"
proof -
  from assms(1) have sk: "s k = Some (Bitmap a)"
    by (auto simp: collapse_def split: option.splits entry.splits if_splits)
  show ?thesis
  proof (cases "k = date r")
    case False
    with assms show ?thesis by (simp add: collapse_def mark_def)
  next
    case True
    with sk have m: "mark s r k = Some (Bitmap (put_true a (slot r)))"
      by (simp add: mark_def entry_add_def)
    from assms(2,3) have "j < length (put_true a (slot r))" "put_true a (slot r) ! j = Some True"
      by (simp_all add: length_put_true nth_put_true)
    with m show ?thesis by (simp add: collapse_def)
  qed
qed

section \<open>The schedule builder\<close>

text \<open>
  C3. With no appointment fetched the schedule is exactly \<open>{today: true}\<close> and today
  cannot be selected. The claim that every other day can be selected does not hold:
  \<open>checkDisableDate\<close> also disables every day before today. What holds is that a day
  other than today is disabled exactly when it lies before today, so every later day
  can be selected.
\<close>

theorem empty_schedule:
  "handleFetch_schedule parse today [] = [format_YYYY_DD_MM today \<mapsto> FullyBooked] \<and>
   checkDisableDate (handleFetch_schedule parse today []) today today \<and>
   (day \<noteq> today \<longrightarrow>
      checkDisableDate (handleFetch_schedule parse today []) today day = before day today) \<and>
   (before today day \<longrightarrow> \<not> checkDisableDate (handleFetch_schedule parse today []) today day)"
proof -
  have neq: "format_YYYY_DD_MM day \<noteq> format_YYYY_DD_MM today" if "day \<noteq> today"
    using that format_YYYY_DD_MM_inj by blast
  have "day \<noteq> today \<and> \<not> before day today" if "before today day"
    using that by (auto simp: before_def)
  with neq show ?thesis
    by (auto simp: handleFetch_schedule_Nil checkDisableDate_def)
qed

theorem empty_schedule_witness:
  "checkDisableDate (handleFetch_schedule parse_wire \<lparr>year = 2024, month = 6, dayOfMonth = 15\<rparr> [])
     \<lparr>year = 2024, month = 6, dayOfMonth = 15\<rparr> \<lparr>year = 2024, month = 6, dayOfMonth = 15\<rparr> \<and>
   \<not> checkDisableDate (handleFetch_schedule parse_wire \<lparr>year = 2024, month = 6, dayOfMonth = 15\<rparr> [])
     \<lparr>year = 2024, month = 6, dayOfMonth = 15\<rparr> \<lparr>year = 2024, month = 6, dayOfMonth = 16\<rparr> \<and>
   checkDisableDate (handleFetch_schedule parse_wire \<lparr>year = 2024, month = 6, dayOfMonth = 15\<rparr> [])
     \<lparr>year = 2024, month = 6, dayOfMonth = 15\<rparr> \<lparr>year = 2023, month = 12, dayOfMonth = 31\<rparr>"
proof -
  let ?today = "\<lparr>year = 2024, month = 6, dayOfMonth = 15\<rparr>"
  let ?next = "\<lparr>year = 2024, month = 6, dayOfMonth = 16\<rparr>"
  let ?past = "\<lparr>year = 2023, month = 12, dayOfMonth = 31\<rparr>"
  have "before ?today ?next" and "?past \<noteq> ?today" and "before ?past ?today"
    by (simp_all add: before_def)
  with empty_schedule [of parse_wire ?today ?next] empty_schedule [of parse_wire ?today ?past]
  show ?thesis by blast
qed

text \<open>
  With today the 15th of June 2024 and nothing fetched, the 14th is another day and is
  disabled.
\<close>

theorem past_day_counterexample:
  "\<lparr>year = 2024, month = 6, dayOfMonth = 14\<rparr> \<noteq> \<lparr>year = 2024, month = 6, dayOfMonth = 15\<rparr> \<and>
   checkDisableDate (handleFetch_schedule parse_wire \<lparr>year = 2024, month = 6, dayOfMonth = 15\<rparr> [])
     \<lparr>year = 2024, month = 6, dayOfMonth = 15\<rparr> \<lparr>year = 2024, month = 6, dayOfMonth = 14\<rparr>"
  by (simp add: checkDisableDate_def before_def)

lemma one_record_schedule:
  "handleFetch_schedule parse_wire \<lparr>year = 2024, month = 6, dayOfMonth = 15\<rparr>
     [\<lparr>date = ''2024-16-06'', slot = 2\<rparr>] ''2024-16-06''
   = Some (Bitmap [Some False, Some False, Some True, Some False, Some False, Some False,
                   Some False, Some False])"
  by code_simp

subsection \<open>Fetched dates in wire format\<close>

text \<open>
  When the dates of the fetched records are in wire format, the presence test and the
  writes of the callback use one key. The schedule then depends only on the set of the
  records (\<open>handleFetch_schedule_set\<close>), records that cover the slots 0..7 of a day
  make its entry \<open>true\<close> (\<open>fully_booked_when_covered\<close>), and the entry of today stays
  \<open>true\<close> (\<open>today_fully_booked\<close>). Whatever the dates are, no array all of whose
  positions 0..7 are \<open>true\<close> is left after the collapse pass (\<open>no_full_bitmap\<close>).
\<close>

lemma scheduleDisabled_iff:
  "scheduleDisabled sched k s \<longleftrightarrow>
   (\<exists>a. sched k = Some (Bitmap a) \<and> s < length a \<and> a ! s = Some True)"
  by (auto simp: scheduleDisabled_def split: option.splits entry.splits)

text \<open>
  Appending a record whose date is in wire format frees nothing: an entry \<open>true\<close> stays
  \<open>true\<close>; a position that is \<open>true\<close> in an array stays \<open>true\<close> in the array, or
  the entry becomes \<open>true\<close>; a slot that the time buttons report as taken is still
  reported, or the entry of its day has become \<open>true\<close>; and a day that
  \<open>checkDisableDate\<close> disables stays disabled.
\<close>

lemma append_wire_record:
  assumes "wire_format parse (date r)"
  shows
    "(handleFetch_schedule parse today rs k = Some FullyBooked \<longrightarrow>
        handleFetch_schedule parse today (rs @ [r]) k = Some FullyBooked) \<and>
     (\<forall>a j. handleFetch_schedule parse today rs k = Some (Bitmap a) \<and> j < length a \<and>
             a ! j = Some True \<longrightarrow>
        handleFetch_schedule parse today (rs @ [r]) k = Some FullyBooked \<or>
        (\<exists>a'. handleFetch_schedule parse today (rs @ [r]) k = Some (Bitmap a') \<and>
              j < length a' \<and> a' ! j = Some True)) \<and>
     (scheduleDisabled (handleFetch_schedule parse today rs) k s \<longrightarrow>
        scheduleDisabled (handleFetch_schedule parse today (rs @ [r])) k s \<or>
        handleFetch_schedule parse today (rs @ [r]) k = Some FullyBooked) \<and>
     (checkDisableDate (handleFetch_schedule parse today rs) today day \<longrightarrow>
        checkDisableDate (handleFetch_schedule parse today (rs @ [r])) today day) \<and>
     ((\<forall>r'\<in>set rs. wire_format parse (date r')) \<longrightarrow>
        handleFetch_schedule parse today (rs @ [r]) (format_YYYY_DD_MM today) = Some FullyBooked)"
proof -
  define t where "t = foldl (reduce_step parse) (initSchedule today) rs"
  have old: "handleFetch_schedule parse today rs = collapse t"
    by (simp add: t_def handleFetch_schedule_foldl)
  have new: "handleFetch_schedule parse today (rs @ [r]) = collapse (mark t r)"
    by (simp add: t_def handleFetch_schedule_snoc [OF assms])
  have bit: "collapse (mark t r) k = Some FullyBooked \<or>
        (\<exists>a'. collapse (mark t r) k = Some (Bitmap a') \<and> j < length a' \<and> a' ! j = Some True)"
    if "collapse t k = Some (Bitmap a)" "j < length a" "a ! j = Some True" for a j
    using that by (rule collapse_mark_bit)
  show ?thesis
  proof (intro conjI allI impI)
    assume "handleFetch_schedule parse today rs k = Some FullyBooked"
    then show "handleFetch_schedule parse today (rs @ [r]) k = Some FullyBooked"
      unfolding old new by (rule collapse_mark_full)
  next
    fix a j
    assume "handleFetch_schedule parse today rs k = Some (Bitmap a) \<and> j < length a \<and>
            a ! j = Some True"
    then show "handleFetch_schedule parse today (rs @ [r]) k = Some FullyBooked \<or>
          (\<exists>a'. handleFetch_schedule parse today (rs @ [r]) k = Some (Bitmap a') \<and>
                j < length a' \<and> a' ! j = Some True)"
      unfolding old new using bit by blast
  next
    assume "scheduleDisabled (handleFetch_schedule parse today rs) k s"
    then obtain a where "collapse t k = Some (Bitmap a)" "s < length a" "a ! s = Some True"
      unfolding old scheduleDisabled_iff by blast
    from bit [OF this]
    show "scheduleDisabled (handleFetch_schedule parse today (rs @ [r])) k s \<or>
          handleFetch_schedule parse today (rs @ [r]) k = Some FullyBooked"
      unfolding new scheduleDisabled_iff by blast
  next
    assume "checkDisableDate (handleFetch_schedule parse today rs) today day"
    then show "checkDisableDate (handleFetch_schedule parse today (rs @ [r])) today day"
      unfolding old new checkDisableDate_def by (auto intro: collapse_mark_full)
  next
    assume "\<forall>r'\<in>set rs. wire_format parse (date r')"
    with assms have "\<forall>r'\<in>set (rs @ [r]). wire_format parse (date r')" by simp
    then show "handleFetch_schedule parse today (rs @ [r]) (format_YYYY_DD_MM today)
               = Some FullyBooked"
      by (rule today_fully_booked)
  qed
qed

subsection \<open>A list fetched twice over\<close>

text \<open>
  A record fetched twice in a row counts once, whatever its date is.
\<close>

lemma reduce_step_idem:
  "reduce_step parse (reduce_step parse s r) r = reduce_step parse s r"
  unfolding reduce_step_def Let_def truthy_at_def
  by (auto simp: put_true_idem fun_eq_iff split: option.splits entry.splits)

text \<open>
  In a schedule all of whose keys are in wire format, a record whose date is not the
  name of a member of \<open>Object.prototype\<close> either marks its slot in the entry of its
  day or starts the entry afresh. The entry under a key after the whole list is then the
  same from every entry when a record starts it afresh, and is a set of marks otherwise.
\<close>

lemma reduce_step_key_step:
  assumes "keys_wire parse s" and "date r \<notin> set object_prototype_keys"
  shows "reduce_step parse s r = key_step parse s r"
proof (cases "wire_format parse (date r)")
  case True
  then have "reformat parse (date r) = date r" by (simp add: wire_format_def)
  with True show ?thesis
    by (simp add: reduce_step_wire key_step_def entry_step_def mark_def)
next
  case False
  with assms(1) have "s (date r) = None" by (auto simp: keys_wire_def)
  with assms(2) have "\<not> truthy_at s (date r)" by (simp add: truthy_at_def)
  with False show ?thesis
    by (simp add: reduce_step_def Let_def key_step_def entry_step_def)
qed

lemma keys_wire_key_step:
  assumes "keys_wire parse s" and "wire_format parse (reformat parse (date r))"
  shows "keys_wire parse (key_step parse s r)"
  using assms by (auto simp: keys_wire_def key_step_def)

lemma foldl_reduce_key_step:
  assumes "keys_wire parse s"
    and "\<forall>r\<in>set rs. date r \<notin> set object_prototype_keys"
    and "\<forall>r\<in>set rs. wire_format parse (reformat parse (date r))"
  shows "foldl (reduce_step parse) s rs = foldl (key_step parse) s rs"
  using assms
proof (induction rs arbitrary: s)
  case Nil
  show ?case by simp
next
  case (Cons r rs)
  from Cons.prems have eq: "reduce_step parse s r = key_step parse s r"
    by (intro reduce_step_key_step) simp_all
  from Cons.prems have "keys_wire parse (key_step parse s r)"
    by (intro keys_wire_key_step) simp_all
  with Cons.prems have "foldl (reduce_step parse) (key_step parse s r) rs
      = foldl (key_step parse) (key_step parse s r) rs"
    by (intro Cons.IH) simp_all
  with eq show ?case by simp
qed

lemma foldl_key_step_at: "foldl (key_step parse) s rs k = entry_fold parse k (s k) rs"
  by (induction rs arbitrary: s) (simp_all add: key_step_def)

lemma entry_fold_append:
  "entry_fold parse k e (xs @ ys) = entry_fold parse k (entry_fold parse k e xs) ys"
  by (induction xs arbitrary: e) simp_all

lemma entry_fold_const:
  assumes "\<exists>r\<in>set rs. reformat parse (date r) = k \<and> \<not> wire_format parse (date r)"
  shows "entry_fold parse k e rs = entry_fold parse k e' rs"
  using assms
proof (induction rs arbitrary: e e')
  case Nil
  then show ?case by simp
next
  case (Cons r rs)
  show ?case
  proof (cases "reformat parse (date r) = k \<and> \<not> wire_format parse (date r)")
    case True
    then show ?thesis by (simp add: entry_step_def)
  next
    case False
    with Cons.prems have "\<exists>r\<in>set rs. reformat parse (date r) = k \<and> \<not> wire_format parse (date r)"
      by auto
    then show ?thesis by (simp add: Cons.IH)
  qed
qed

lemma entry_add_foldl: "entry_add (foldl entry_add e js) i = foldl entry_add (entry_add e i) js"
  by (induction js arbitrary: e) (simp_all add: entry_add_commute)

lemma entry_add_absorbed:
  "i \<in> set js \<Longrightarrow> entry_add (foldl entry_add e js) i = foldl entry_add e js"
proof (induction js arbitrary: e)
  case Nil
  then show ?case by simp
next
  case (Cons x xs)
  show ?case
  proof (cases "i = x")
    case True
    then show ?thesis by (simp add: entry_add_foldl entry_add_idem)
  next
    case False
    with Cons show ?thesis by simp
  qed
qed

lemma foldl_entry_add_absorb:
  "set ys \<subseteq> set xs \<Longrightarrow> foldl entry_add e (xs @ ys) = foldl entry_add e xs"
proof (induction ys rule: rev_induct)
  case Nil
  show ?case by simp
next
  case (snoc y ys)
  then have "foldl entry_add e (xs @ ys) = foldl entry_add e xs" and "y \<in> set xs" by simp_all
  then show ?case by (simp add: entry_add_absorbed)
qed

lemma entry_fold_marks:
  assumes "\<forall>r\<in>set rs. reformat parse (date r) = k \<longrightarrow> wire_format parse (date r)"
  shows "entry_fold parse k e rs
         = foldl entry_add e (map slot (filter (\<lambda>r. reformat parse (date r) = k) rs))"
  using assms by (induction rs arbitrary: e) (simp_all add: entry_step_def)

lemma entry_fold_twice: "entry_fold parse k (entry_fold parse k e rs) rs = entry_fold parse k e rs"
proof (cases "\<exists>r\<in>set rs. reformat parse (date r) = k \<and> \<not> wire_format parse (date r)")
  case True
  then show ?thesis by (rule entry_fold_const)
next
  case False
  then have w: "\<forall>r\<in>set rs. reformat parse (date r) = k \<longrightarrow> wire_format parse (date r)"
    by blast
  let ?js = "map slot (filter (\<lambda>r. reformat parse (date r) = k) rs)"
  have "entry_fold parse k (entry_fold parse k e rs) rs = foldl entry_add (foldl entry_add e ?js) ?js"
    by (simp only: entry_fold_marks [OF w])
  also have "\<dots> = foldl entry_add e (?js @ ?js)" by simp
  also have "\<dots> = foldl entry_add e ?js" by (rule foldl_entry_add_absorb) simp
  also have "\<dots> = entry_fold parse k e rs" by (simp only: entry_fold_marks [OF w])
  finally show ?thesis .
qed

lemma foldl_key_step_twice: "foldl (key_step parse) s (rs @ rs) = foldl (key_step parse) s rs"
proof
  fix k
  have "foldl (key_step parse) s (rs @ rs) k = entry_fold parse k (s k) (rs @ rs)"
    by (rule foldl_key_step_at)
  also have "\<dots> = entry_fold parse k (s k) rs" by (simp add: entry_fold_append entry_fold_twice)
  also have "\<dots> = foldl (key_step parse) s rs k" by (rule foldl_key_step_at [symmetric])
  finally show "foldl (key_step parse) s (rs @ rs) k = foldl (key_step parse) s rs k" .
qed

lemma keys_wire_init:
  "wire_format parse (format_YYYY_DD_MM today) \<Longrightarrow> keys_wire parse (initSchedule today)"
  by (simp add: keys_wire_def initSchedule_def)

text \<open>
  The parser reads back what the library prints when reformatting a reformatted date
  changes nothing. For such a parser, and a list none of whose dates is the name of a
  member of \<open>Object.prototype\<close>, the schedule of the list fetched twice over is the
  schedule of the list; the dates need not be in wire format.
\<close>

lemma twice_same_without_inherited_names:
  assumes "\<forall>r\<in>set rs. date r \<notin> set object_prototype_keys"
    and "\<forall>r\<in>set rs. wire_format parse (reformat parse (date r))"
    and "wire_format parse (format_YYYY_DD_MM today)"
  shows "handleFetch_schedule parse today (rs @ rs) = handleFetch_schedule parse today rs"
proof -
  have k: "keys_wire parse (initSchedule today)"
    using assms(3) by (rule keys_wire_init)
  have "foldl (reduce_step parse) (initSchedule today) (rs @ rs)
        = foldl (key_step parse) (initSchedule today) (rs @ rs)"
    using k assms(1,2) by (intro foldl_reduce_key_step) auto
  also have "\<dots> = foldl (key_step parse) (initSchedule today) rs" by (rule foldl_key_step_twice)
  also have "\<dots> = foldl (reduce_step parse) (initSchedule today) rs"
    using k assms(1,2) by (intro foldl_reduce_key_step [symmetric]) auto
  finally show ?thesis by (simp only: handleFetch_schedule_foldl)
qed

lemma twice_same_example:
  "handleFetch_schedule parse_lenient \<lparr>year = 2024, month = 6, dayOfMonth = 15\<rparr>
     ([\<lparr>date = ''2024-16-6'', slot = 5\<rparr>, \<lparr>date = ''2024-16-06'', slot = 2\<rparr>] @
      [\<lparr>date = ''2024-16-6'', slot = 5\<rparr>, \<lparr>date = ''2024-16-06'', slot = 2\<rparr>])
   = handleFetch_schedule parse_lenient \<lparr>year = 2024, month = 6, dayOfMonth = 15\<rparr>
       [\<lparr>date = ''2024-16-6'', slot = 5\<rparr>, \<lparr>date = ''2024-16-06'', slot = 2\<rparr>]"
proof (rule twice_same_without_inherited_names)
  let ?rs = "[\<lparr>date = ''2024-16-6'', slot = 5\<rparr>, \<lparr>date = ''2024-16-06'', slot = 2\<rparr>]"
  show "\<forall>r\<in>set ?rs. date r \<notin> set object_prototype_keys"
    by (simp add: object_prototype_keys_def)
  have "wire_format parse_lenient ''2024-16-06''" by code_simp
  then show "\<forall>r\<in>set ?rs. wire_format parse_lenient (reformat parse_lenient (date r))"
    by (simp add: reformat_def lenient_2024_16_6 lenient_2024_16_06 fmt_2024_16_06)
  show "wire_format parse_lenient (format_YYYY_DD_MM \<lparr>year = 2024, month = 6, dayOfMonth = 15\<rparr>)"
    by code_simp
qed

subsection \<open>Fetched dates in another spelling\<close>

text \<open>
  \<open>app.get('/api/appointments')\<close> passes on the \<open>date\<close> field of a stored object
  as it is, and the field is a text field of the store. For a date that is not in wire
  format the callback looks for an entry under the date as fetched, finds none, and
  starts the array under the reformatted date afresh, whatever was there
  (\<open>reduce_step_fresh\<close>): the line above it has computed \<open>dateString\<close>, and the
  lines below it use \<open>dateString\<close>, but the test reads \<open>currentSchedule[date]\<close>. The
  three theorems of this subsection evaluate \<open>handleFetch\<close> on such records, for today
  the 15th of June 2024 and for any parser that reads the date strings of the records
  as the library does.
\<close>

lemma array8_eq:
  "array8 = [Some False, Some False, Some False, Some False, Some False, Some False,
             Some False, Some False]"
  by (simp add: array8_def eval_nat_numeral)

lemmas build_simps = handleFetch_schedule_foldl reduce_step_def Let_def truthy_at_def
  initSchedule_def fmt_2024_15_06 object_prototype_keys_def collapse_def array8_eq
  put_true_def every_true_def

text \<open>
  C4. Eight records cover the slots 0..7 of the 16th of June 2024, and a ninth record
  names the same day as \<open>2024-16-6\<close>. The claim says that the entry of the day is
  \<open>true\<close> and that the day cannot be selected. In the code the ninth record replaces the
  full array by a new one with its own slot only: after the collapse pass the entry is
  an array with seven positions \<open>false\<close>, and \<open>checkDisableDate\<close> does not disable the
  day.
\<close>

theorem ninth_record_reopens_day:
  assumes "parse ''2024-16-06'' = Some \<lparr>year = 2024, month = 6, dayOfMonth = 16\<rparr>"
    and "parse ''2024-16-6'' = Some \<lparr>year = 2024, month = 6, dayOfMonth = 16\<rparr>"
  shows
    "handleFetch_schedule parse \<lparr>year = 2024, month = 6, dayOfMonth = 15\<rparr>
       [\<lparr>date = ''2024-16-06'', slot = 0\<rparr>, \<lparr>date = ''2024-16-06'', slot = 1\<rparr>,
        \<lparr>date = ''2024-16-06'', slot = 2\<rparr>, \<lparr>date = ''2024-16-06'', slot = 3\<rparr>,
        \<lparr>date = ''2024-16-06'', slot = 4\<rparr>, \<lparr>date = ''2024-16-06'', slot = 5\<rparr>,
        \<lparr>date = ''2024-16-06'', slot = 6\<rparr>, \<lparr>date = ''2024-16-06'', slot = 7\<rparr>]
       ''2024-16-06''
     = Some FullyBooked \<and>
     handleFetch_schedule parse \<lparr>year = 2024, month = 6, dayOfMonth = 15\<rparr>
       [\<lparr>date = ''2024-16-06'', slot = 0\<rparr>, \<lparr>date = ''2024-16-06'', slot = 1\<rparr>,
        \<lparr>date = ''2024-16-06'', slot = 2\<rparr>, \<lparr>date = ''2024-16-06'', slot = 3\<rparr>,
        \<lparr>date = ''2024-16-06'', slot = 4\<rparr>, \<lparr>date = ''2024-16-06'', slot = 5\<rparr>,
        \<lparr>date = ''2024-16-06'', slot = 6\<rparr>, \<lparr>date = ''2024-16-06'', slot = 7\<rparr>,
        \<lparr>date = ''2024-16-6'', slot = 3\<rparr>]
       ''2024-16-06''
     = Some (Bitmap [Some False, Some False, Some False, Some True, Some False, Some False,
                     Some False, Some False]) \<and>
     \<not> checkDisableDate
       (handleFetch_schedule parse \<lparr>year = 2024, month = 6, dayOfMonth = 15\<rparr>
          [\<lparr>date = ''2024-16-06'', slot = 0\<rparr>, \<lparr>date = ''2024-16-06'', slot = 1\<rparr>,
           \<lparr>date = ''2024-16-06'', slot = 2\<rparr>, \<lparr>date = ''2024-16-06'', slot = 3\<rparr>,
           \<lparr>date = ''2024-16-06'', slot = 4\<rparr>, \<lparr>date = ''2024-16-06'', slot = 5\<rparr>,
           \<lparr>date = ''2024-16-06'', slot = 6\<rparr>, \<lparr>date = ''2024-16-06'', slot = 7\<rparr>,
           \<lparr>date = ''2024-16-6'', slot = 3\<rparr>])
       \<lparr>year = 2024, month = 6, dayOfMonth = 15\<rparr> \<lparr>year = 2024, month = 6, dayOfMonth = 16\<rparr>"
proof -
  have k: "reformat parse ''2024-16-06'' = ''2024-16-06''"
    "reformat parse ''2024-16-6'' = ''2024-16-06''"
    by (simp_all add: reformat_def assms fmt_2024_16_06)
  have eight:
    "handleFetch_schedule parse \<lparr>year = 2024, month = 6, dayOfMonth = 15\<rparr>
       [\<lparr>date = ''2024-16-06'', slot = 0\<rparr>, \<lparr>date = ''2024-16-06'', slot = 1\<rparr>,
        \<lparr>date = ''2024-16-06'', slot = 2\<rparr>, \<lparr>date = ''2024-16-06'', slot = 3\<rparr>,
        \<lparr>date = ''2024-16-06'', slot = 4\<rparr>, \<lparr>date = ''2024-16-06'', slot = 5\<rparr>,
        \<lparr>date = ''2024-16-06'', slot = 6\<rparr>, \<lparr>date = ''2024-16-06'', slot = 7\<rparr>]
       ''2024-16-06''
     = Some FullyBooked"
    by (simp add: build_simps k)
  have nine:
    "handleFetch_schedule parse \<lparr>year = 2024, month = 6, dayOfMonth = 15\<rparr>
       [\<lparr>date = ''2024-16-06'', slot = 0\<rparr>, \<lparr>date = ''2024-16-06'', slot = 1\<rparr>,
        \<lparr>date = ''2024-16-06'', slot = 2\<rparr>, \<lparr>date = ''2024-16-06'', slot = 3\<rparr>,
        \<lparr>date = ''2024-16-06'', slot = 4\<rparr>, \<lparr>date = ''2024-16-06'', slot = 5\<rparr>,
        \<lparr>date = ''2024-16-06'', slot = 6\<rparr>, \<lparr>date = ''2024-16-06'', slot = 7\<rparr>,
        \<lparr>date = ''2024-16-6'', slot = 3\<rparr>]
       ''2024-16-06''
     = Some (Bitmap [Some False, Some False, Some False, Some True, Some False, Some False,
                     Some False, Some False])"
    by (simp add: build_simps k)
  show ?thesis
    unfolding checkDisableDate_def fmt_2024_16_06 eight nine by (simp add: before_def)
qed

theorem ninth_record_reopens_day_witness:
  "handleFetch_schedule parse_lenient \<lparr>year = 2024, month = 6, dayOfMonth = 15\<rparr>
     [\<lparr>date = ''2024-16-06'', slot = 0\<rparr>, \<lparr>date = ''2024-16-06'', slot = 1\<rparr>,
      \<lparr>date = ''2024-16-06'', slot = 2\<rparr>, \<lparr>date = ''2024-16-06'', slot = 3\<rparr>,
      \<lparr>date = ''2024-16-06'', slot = 4\<rparr>, \<lparr>date = ''2024-16-06'', slot = 5\<rparr>,
      \<lparr>date = ''2024-16-06'', slot = 6\<rparr>, \<lparr>date = ''2024-16-06'', slot = 7\<rparr>]
     ''2024-16-06''
   = Some FullyBooked \<and>
   handleFetch_schedule parse_lenient \<lparr>year = 2024, month = 6, dayOfMonth = 15\<rparr>
     [\<lparr>date = ''2024-16-06'', slot = 0\<rparr>, \<lparr>date = ''2024-16-06'', slot = 1\<rparr>,
      \<lparr>date = ''2024-16-06'', slot = 2\<rparr>, \<lparr>date = ''2024-16-06'', slot = 3\<rparr>,
      \<lparr>date = ''2024-16-06'', slot = 4\<rparr>, \<lparr>date = ''2024-16-06'', slot = 5\<rparr>,
      \<lparr>date = ''2024-16-06'', slot = 6\<rparr>, \<lparr>date = ''2024-16-06'', slot = 7\<rparr>,
      \<lparr>date = ''2024-16-6'', slot = 3\<rparr>]
     ''2024-16-06''
   = Some (Bitmap [Some False, Some False, Some False, Some True, Some False, Some False,
                   Some False, Some False]) \<and>
   \<not> checkDisableDate
     (handleFetch_schedule parse_lenient \<lparr>year = 2024, month = 6, dayOfMonth = 15\<rparr>
        [\<lparr>date = ''2024-16-06'', slot = 0\<rparr>, \<lparr>date = ''2024-16-06'', slot = 1\<rparr>,
         \<lparr>date = ''2024-16-06'', slot = 2\<rparr>, \<lparr>date = ''2024-16-06'', slot = 3\<rparr>,
         \<lparr>date = ''2024-16-06'', slot = 4\<rparr>, \<lparr>date = ''2024-16-06'', slot = 5\<rparr>,
         \<lparr>date = ''2024-16-06'', slot = 6\<rparr>, \<lparr>date = ''2024-16-06'', slot = 7\<rparr>,
         \<lparr>date = ''2024-16-6'', slot = 3\<rparr>])
     \<lparr>year = 2024, month = 6, dayOfMonth = 15\<rparr> \<lparr>year = 2024, month = 6, dayOfMonth = 16\<rparr>"
  by (rule ninth_record_reopens_day [OF lenient_2024_16_06 lenient_2024_16_6])

text \<open>
  C5. The list of the two records \<open>{date: 'constructor', slot: 3}\<close> and
  \<open>{date: 'Invalid date', slot: 1}\<close> is fetched once, and twice over. Neither date can
  be read, so both records are written under the key \<open>Invalid date\<close>. The claim says
  that the two schedules are the same. In the code the first record finds the inherited
  member \<open>constructor\<close> under its date and starts no array, so its slot is written only
  when the array is there already: built from the list once the array has slot 1, built
  from the list twice over it has the slots 1 and 3.
\<close>

theorem twice_differs_from_once:
  assumes "parse ''constructor'' = None" and "parse ''Invalid date'' = None"
  shows
    "handleFetch_schedule parse \<lparr>year = 2024, month = 6, dayOfMonth = 15\<rparr>
       [\<lparr>date = ''constructor'', slot = 3\<rparr>, \<lparr>date = ''Invalid date'', slot = 1\<rparr>]
       ''Invalid date''
     = Some (Bitmap [Some False, Some True, Some False, Some False, Some False, Some False,
                     Some False, Some False]) \<and>
     handleFetch_schedule parse \<lparr>year = 2024, month = 6, dayOfMonth = 15\<rparr>
       ([\<lparr>date = ''constructor'', slot = 3\<rparr>, \<lparr>date = ''Invalid date'', slot = 1\<rparr>] @
        [\<lparr>date = ''constructor'', slot = 3\<rparr>, \<lparr>date = ''Invalid date'', slot = 1\<rparr>])
       ''Invalid date''
     = Some (Bitmap [Some False, Some True, Some False, Some True, Some False, Some False,
                     Some False, Some False]) \<and>
     handleFetch_schedule parse \<lparr>year = 2024, month = 6, dayOfMonth = 15\<rparr>
       ([\<lparr>date = ''constructor'', slot = 3\<rparr>, \<lparr>date = ''Invalid date'', slot = 1\<rparr>] @
        [\<lparr>date = ''constructor'', slot = 3\<rparr>, \<lparr>date = ''Invalid date'', slot = 1\<rparr>])
     \<noteq> handleFetch_schedule parse \<lparr>year = 2024, month = 6, dayOfMonth = 15\<rparr>
         [\<lparr>date = ''constructor'', slot = 3\<rparr>, \<lparr>date = ''Invalid date'', slot = 1\<rparr>]"
proof -
  let ?today = "\<lparr>year = 2024, month = 6, dayOfMonth = 15\<rparr>"
  let ?rs = "[\<lparr>date = ''constructor'', slot = 3\<rparr>, \<lparr>date = ''Invalid date'', slot = 1\<rparr>]"
  have k: "reformat parse ''constructor'' = ''Invalid date''"
    "reformat parse ''Invalid date'' = ''Invalid date''"
    by (simp_all add: reformat_def assms)
  have once: "handleFetch_schedule parse ?today ?rs ''Invalid date''
     = Some (Bitmap [Some False, Some True, Some False, Some False, Some False, Some False,
                     Some False, Some False])"
    by (simp add: build_simps k)
  have twice: "handleFetch_schedule parse ?today (?rs @ ?rs) ''Invalid date''
     = Some (Bitmap [Some False, Some True, Some False, Some True, Some False, Some False,
                     Some False, Some False])"
    by (simp add: build_simps k)
  from once twice have "handleFetch_schedule parse ?today (?rs @ ?rs) ''Invalid date''
     \<noteq> handleFetch_schedule parse ?today ?rs ''Invalid date''"
    by simp
  then have "handleFetch_schedule parse ?today (?rs @ ?rs) \<noteq> handleFetch_schedule parse ?today ?rs"
    by metis
  with once twice show ?thesis by (intro conjI)
qed

theorem twice_differs_from_once_witness:
  "handleFetch_schedule parse_lenient \<lparr>year = 2024, month = 6, dayOfMonth = 15\<rparr>
     [\<lparr>date = ''constructor'', slot = 3\<rparr>, \<lparr>date = ''Invalid date'', slot = 1\<rparr>]
     ''Invalid date''
   = Some (Bitmap [Some False, Some True, Some False, Some False, Some False, Some False,
                   Some False, Some False]) \<and>
   handleFetch_schedule parse_lenient \<lparr>year = 2024, month = 6, dayOfMonth = 15\<rparr>
     ([\<lparr>date = ''constructor'', slot = 3\<rparr>, \<lparr>date = ''Invalid date'', slot = 1\<rparr>] @
      [\<lparr>date = ''constructor'', slot = 3\<rparr>, \<lparr>date = ''Invalid date'', slot = 1\<rparr>])
     ''Invalid date''
   = Some (Bitmap [Some False, Some True, Some False, Some True, Some False, Some False,
                   Some False, Some False]) \<and>
   handleFetch_schedule parse_lenient \<lparr>year = 2024, month = 6, dayOfMonth = 15\<rparr>
     ([\<lparr>date = ''constructor'', slot = 3\<rparr>, \<lparr>date = ''Invalid date'', slot = 1\<rparr>] @
      [\<lparr>date = ''constructor'', slot = 3\<rparr>, \<lparr>date = ''Invalid date'', slot = 1\<rparr>])
   \<noteq> handleFetch_schedule parse_lenient \<lparr>year = 2024, month = 6, dayOfMonth = 15\<rparr>
       [\<lparr>date = ''constructor'', slot = 3\<rparr>, \<lparr>date = ''Invalid date'', slot = 1\<rparr>]"
  by (rule twice_differs_from_once [OF lenient_constructor lenient_Invalid_date])

text \<open>
  C10. The claim says that appending a record never frees a slot and never makes a day
  selectable again, and that a record dated today never turns today's entry into an
  array. In the code, with nothing fetched the entry of today is \<open>true\<close> and today cannot
  be selected; after the one record \<open>{date: '2024-15-6', slot: 3}\<close>, dated today, the
  entry of today is an array and \<open>checkDisableDate\<close> does not disable today. And after
  the record \<open>{date: '2024-16-06', slot: 2}\<close> the time buttons report slot 2 of the 16th
  as taken; with the record \<open>{date: '2024-16-6', slot: 5}\<close> appended the array of the
  16th has slot 5 only, and slot 2 is no longer reported.
\<close>

theorem appended_record_frees:
  assumes "parse ''2024-15-6'' = Some \<lparr>year = 2024, month = 6, dayOfMonth = 15\<rparr>"
    and "parse ''2024-16-06'' = Some \<lparr>year = 2024, month = 6, dayOfMonth = 16\<rparr>"
    and "parse ''2024-16-6'' = Some \<lparr>year = 2024, month = 6, dayOfMonth = 16\<rparr>"
  shows
    "handleFetch_schedule parse \<lparr>year = 2024, month = 6, dayOfMonth = 15\<rparr> [] ''2024-15-06''
     = Some FullyBooked \<and>
     handleFetch_schedule parse \<lparr>year = 2024, month = 6, dayOfMonth = 15\<rparr>
       ([] @ [\<lparr>date = ''2024-15-6'', slot = 3\<rparr>]) ''2024-15-06''
     = Some (Bitmap [Some False, Some False, Some False, Some True, Some False, Some False,
                     Some False, Some False]) \<and>
     checkDisableDate
       (handleFetch_schedule parse \<lparr>year = 2024, month = 6, dayOfMonth = 15\<rparr> [])
       \<lparr>year = 2024, month = 6, dayOfMonth = 15\<rparr> \<lparr>year = 2024, month = 6, dayOfMonth = 15\<rparr> \<and>
     \<not> checkDisableDate
       (handleFetch_schedule parse \<lparr>year = 2024, month = 6, dayOfMonth = 15\<rparr>
          ([] @ [\<lparr>date = ''2024-15-6'', slot = 3\<rparr>]))
       \<lparr>year = 2024, month = 6, dayOfMonth = 15\<rparr> \<lparr>year = 2024, month = 6, dayOfMonth = 15\<rparr> \<and>
     handleFetch_schedule parse \<lparr>year = 2024, month = 6, dayOfMonth = 15\<rparr>
       [\<lparr>date = ''2024-16-06'', slot = 2\<rparr>] ''2024-16-06''
     = Some (Bitmap [Some False, Some False, Some True, Some False, Some False, Some False,
                     Some False, Some False]) \<and>
     handleFetch_schedule parse \<lparr>year = 2024, month = 6, dayOfMonth = 15\<rparr>
       ([\<lparr>date = ''2024-16-06'', slot = 2\<rparr>] @ [\<lparr>date = ''2024-16-6'', slot = 5\<rparr>]) ''2024-16-06''
     = Some (Bitmap [Some False, Some False, Some False, Some False, Some False, Some True,
                     Some False, Some False]) \<and>
     scheduleDisabled
       (handleFetch_schedule parse \<lparr>year = 2024, month = 6, dayOfMonth = 15\<rparr>
          [\<lparr>date = ''2024-16-06'', slot = 2\<rparr>]) ''2024-16-06'' 2 \<and>
     \<not> scheduleDisabled
       (handleFetch_schedule parse \<lparr>year = 2024, month = 6, dayOfMonth = 15\<rparr>
          ([\<lparr>date = ''2024-16-06'', slot = 2\<rparr>] @ [\<lparr>date = ''2024-16-6'', slot = 5\<rparr>]))
       ''2024-16-06'' 2"
proof -
  let ?today = "\<lparr>year = 2024, month = 6, dayOfMonth = 15\<rparr>"
  let ?r = "\<lparr>date = ''2024-15-6'', slot = 3\<rparr>"
  let ?r2 = "\<lparr>date = ''2024-16-06'', slot = 2\<rparr>"
  let ?r5 = "\<lparr>date = ''2024-16-6'', slot = 5\<rparr>"
  have k: "reformat parse ''2024-15-6'' = ''2024-15-06''"
    "reformat parse ''2024-16-06'' = ''2024-16-06''"
    "reformat parse ''2024-16-6'' = ''2024-16-06''"
    by (simp_all add: reformat_def assms fmt_2024_15_06 fmt_2024_16_06)
  have e0: "handleFetch_schedule parse ?today [] ''2024-15-06'' = Some FullyBooked"
    by (simp add: handleFetch_schedule_Nil fmt_2024_15_06)
  have e1: "handleFetch_schedule parse ?today ([] @ [?r]) ''2024-15-06''
     = Some (Bitmap [Some False, Some False, Some False, Some True, Some False, Some False,
                     Some False, Some False])"
    by (simp add: build_simps k)
  have e2: "handleFetch_schedule parse ?today [?r2] ''2024-16-06''
     = Some (Bitmap [Some False, Some False, Some True, Some False, Some False, Some False,
                     Some False, Some False])"
    by (simp add: build_simps k)
  have e3: "handleFetch_schedule parse ?today ([?r2] @ [?r5]) ''2024-16-06''
     = Some (Bitmap [Some False, Some False, Some False, Some False, Some False, Some True,
                     Some False, Some False])"
    by (simp add: build_simps k)
  have c0: "checkDisableDate (handleFetch_schedule parse ?today []) ?today ?today"
    by (simp add: checkDisableDate_def fmt_2024_15_06 e0)
  have c1: "\<not> checkDisableDate (handleFetch_schedule parse ?today ([] @ [?r])) ?today ?today"
    using e1 by (simp add: checkDisableDate_def fmt_2024_15_06 before_def)
  have d2: "scheduleDisabled (handleFetch_schedule parse ?today [?r2]) ''2024-16-06'' 2"
    by (simp add: scheduleDisabled_def e2)
  have d3: "\<not> scheduleDisabled (handleFetch_schedule parse ?today ([?r2] @ [?r5])) ''2024-16-06'' 2"
    using e3 by (simp add: scheduleDisabled_def)
  from e0 e1 c0 c1 e2 e3 d2 d3 show ?thesis by (intro conjI)
qed

theorem appended_record_frees_witness:
  "handleFetch_schedule parse_lenient \<lparr>year = 2024, month = 6, dayOfMonth = 15\<rparr> [] ''2024-15-06''
   = Some FullyBooked \<and>
   handleFetch_schedule parse_lenient \<lparr>year = 2024, month = 6, dayOfMonth = 15\<rparr>
     ([] @ [\<lparr>date = ''2024-15-6'', slot = 3\<rparr>]) ''2024-15-06''
   = Some (Bitmap [Some False, Some False, Some False, Some True, Some False, Some False,
                   Some False, Some False]) \<and>
   checkDisableDate
     (handleFetch_schedule parse_lenient \<lparr>year = 2024, month = 6, dayOfMonth = 15\<rparr> [])
     \<lparr>year = 2024, month = 6, dayOfMonth = 15\<rparr> \<lparr>year = 2024, month = 6, dayOfMonth = 15\<rparr> \<and>
   \<not> checkDisableDate
     (handleFetch_schedule parse_lenient \<lparr>year = 2024, month = 6, dayOfMonth = 15\<rparr>
        ([] @ [\<lparr>date = ''2024-15-6'', slot = 3\<rparr>]))
     \<lparr>year = 2024, month = 6, dayOfMonth = 15\<rparr> \<lparr>year = 2024, month = 6, dayOfMonth = 15\<rparr> \<and>
   handleFetch_schedule parse_lenient \<lparr>year = 2024, month = 6, dayOfMonth = 15\<rparr>
     [\<lparr>date = ''2024-16-06'', slot = 2\<rparr>] ''2024-16-06''
   = Some (Bitmap [Some False, Some False, Some True, Some False, Some False, Some False,
                   Some False, Some False]) \<and>
   handleFetch_schedule parse_lenient \<lparr>year = 2024, month = 6, dayOfMonth = 15\<rparr>
     ([\<lparr>date = ''2024-16-06'', slot = 2\<rparr>] @ [\<lparr>date = ''2024-16-6'', slot = 5\<rparr>]) ''2024-16-06''
   = Some (Bitmap [Some False, Some False, Some False, Some False, Some False, Some True,
                   Some False, Some False]) \<and>
   scheduleDisabled
     (handleFetch_schedule parse_lenient \<lparr>year = 2024, month = 6, dayOfMonth = 15\<rparr>
        [\<lparr>date = ''2024-16-06'', slot = 2\<rparr>]) ''2024-16-06'' 2 \<and>
   \<not> scheduleDisabled
     (handleFetch_schedule parse_lenient \<lparr>year = 2024, month = 6, dayOfMonth = 15\<rparr>
        ([\<lparr>date = ''2024-16-06'', slot = 2\<rparr>] @ [\<lparr>date = ''2024-16-6'', slot = 5\<rparr>]))
     ''2024-16-06'' 2"
  by (rule appended_record_frees [OF lenient_2024_15_6 lenient_2024_16_06 lenient_2024_16_6])

section \<open>The time buttons\<close>

lemma slot_meridiem:
  "s < 8 \<Longrightarrow> format_a (slot_time today s) = (if s < 3 then ''am'' else ''pm'')"
  by (simp add: format_a_def slot_time_def add_hours_def)

text \<open>
  C1. Once the schedule is stored, \<open>renderAppointmentTimes\<close> returns the eight buttons,
  and the button of slot \<open>s\<close> is enabled exactly when the meridiem of the slot is the one
  selected and the entry of the day is not an array whose position \<open>s\<close> is \<open>true\<close>.
  The claim that an entry \<open>true\<close> counts as taken does not hold: \<open>true[slot]\<close> is
  undefined, so for an entry \<open>true\<close>, as for a day without entry, only the meridiem
  disables a button. Such a day is kept from the user by \<open>checkDisableDate\<close>.
\<close>

theorem slot_selectable:
  assumes "\<not> loading st" and "schedule st = Some sched" and "s < 8"
  shows "\<exists>radios. renderAppointmentTimes st today = Inr (Some radios) \<and> length radios = 8 \<and>
           val (radios ! s) = s \<and>
           (\<not> disabled (radios ! s) \<longleftrightarrow>
              format_a (slot_time today s) = (if appointmentMeridiem st = 0 then ''am'' else ''pm'') \<and>
              \<not> (\<exists>a. sched (format_YYYY_DD_MM (moment_of today (appointmentDate st))) = Some (Bitmap a) \<and>
                       s < length a \<and> a ! s = Some True)) \<and>
           (sched (format_YYYY_DD_MM (moment_of today (appointmentDate st))) \<in> {None, Some FullyBooked} \<longrightarrow>
              disabled (radios ! s) = (if appointmentMeridiem st = 0 then 3 \<le> s else s < 3))"
proof -
  let ?k = "format_YYYY_DD_MM (moment_of today (appointmentDate st))"
  let ?radios = "map (renderRadio st sched today) [0..<8]"
  have am: "format_a (slot_time today s) = (if s < 3 then ''am'' else ''pm'')"
    using assms(3) by (rule slot_meridiem)
  have r: "?radios ! s = renderRadio st sched today s"
    using assms(3) by simp
  have d: "disabled (renderRadio st sched today s) \<longleftrightarrow>
           scheduleDisabled sched ?k s \<or> meridiemDisabled (appointmentMeridiem st) (slot_time today s)"
    by (simp add: renderRadio_def Let_def)
  have m: "meridiemDisabled (appointmentMeridiem st) (slot_time today s) \<longleftrightarrow>
           format_a (slot_time today s) \<noteq> (if appointmentMeridiem st = 0 then ''am'' else ''pm'')"
    by (simp add: meridiemDisabled_def am)
  have "renderAppointmentTimes st today = Inr (Some ?radios)"
    using assms(1,2) by (simp add: renderAppointmentTimes_def)
  moreover have "length ?radios = 8" by simp
  moreover have "val (?radios ! s) = s"
    unfolding r by (simp add: renderRadio_def Let_def)
  moreover have "\<not> disabled (?radios ! s) \<longleftrightarrow>
      format_a (slot_time today s) = (if appointmentMeridiem st = 0 then ''am'' else ''pm'') \<and>
      \<not> (\<exists>a. sched ?k = Some (Bitmap a) \<and> s < length a \<and> a ! s = Some True)"
    unfolding r d m scheduleDisabled_iff by blast
  moreover have "sched ?k \<in> {None, Some FullyBooked} \<longrightarrow>
      disabled (?radios ! s) = (if appointmentMeridiem st = 0 then 3 \<le> s else s < 3)"
    unfolding r d m scheduleDisabled_iff am by auto
  ultimately show ?thesis by blast
qed

theorem slot_selectable_witness:
  "(\<exists>radios.
     renderAppointmentTimes
       (handleSetAppointmentDate \<lparr>year = 2024, month = 6, dayOfMonth = 16\<rparr>
          (handleFetch parse_wire \<lparr>year = 2024, month = 6, dayOfMonth = 15\<rparr>
             [\<lparr>date = ''2024-16-06'', slot = 2\<rparr>] constructor))
       \<lparr>year = 2024, month = 6, dayOfMonth = 15\<rparr> = Inr (Some radios) \<and>
     length radios = 8 \<and> val (radios ! 2) = 2 \<and> disabled (radios ! 2)) \<and>
   (\<exists>radios.
     renderAppointmentTimes
       (handleFetch parse_wire \<lparr>year = 2024, month = 6, dayOfMonth = 15\<rparr> [] constructor)
       \<lparr>year = 2024, month = 6, dayOfMonth = 15\<rparr> = Inr (Some radios) \<and>
     length radios = 8 \<and> val (radios ! 1) = 1 \<and> disabled (radios ! 1) = False)"
proof -
  let ?today = "\<lparr>year = 2024, month = 6, dayOfMonth = 15\<rparr>"
  let ?sched = "handleFetch_schedule parse_wire ?today [\<lparr>date = ''2024-16-06'', slot = 2\<rparr>]"
  let ?st = "handleSetAppointmentDate \<lparr>year = 2024, month = 6, dayOfMonth = 16\<rparr>
               (handleFetch parse_wire ?today [\<lparr>date = ''2024-16-06'', slot = 2\<rparr>] constructor)"
  let ?init = "handleFetch parse_wire ?today [] constructor"
  have 1: "\<not> loading ?st" and 2: "schedule ?st = Some ?sched"
    and d: "appointmentDate ?st = Some \<lparr>year = 2024, month = 6, dayOfMonth = 16\<rparr>"
    by (simp_all add: handleSetAppointmentDate_def handleNextStep_def handleFetch_def)
  have 3: "(2::nat) < 8" by simp
  have "\<exists>a. ?sched (format_YYYY_DD_MM (moment_of ?today (appointmentDate ?st))) = Some (Bitmap a) \<and>
            2 < length a \<and> a ! 2 = Some True"
    by (simp add: d moment_of_def fmt_2024_16_06 one_record_schedule)
  with slot_selectable [OF 1 2 3, of ?today] have first:
    "\<exists>radios. renderAppointmentTimes ?st ?today = Inr (Some radios) \<and>
       length radios = 8 \<and> val (radios ! 2) = 2 \<and> disabled (radios ! 2)"
    by blast
  have 4: "\<not> loading ?init"
    and 5: "schedule ?init = Some (handleFetch_schedule parse_wire ?today [])"
    and 6: "appointmentDate ?init = None" and 7: "appointmentMeridiem ?init = 0"
    by (simp_all add: handleFetch_def constructor_def)
  have 8: "(1::nat) < 8" by simp
  have "handleFetch_schedule parse_wire ?today []
          (format_YYYY_DD_MM (moment_of ?today (appointmentDate ?init))) \<in> {None, Some FullyBooked}"
    by (simp add: 6 moment_of_def handleFetch_schedule_Nil)
  with slot_selectable [OF 4 5 8, of ?today] 7 have second:
    "\<exists>radios. renderAppointmentTimes ?init ?today = Inr (Some radios) \<and>
       length radios = 8 \<and> val (radios ! 1) = 1 \<and> disabled (radios ! 1) = False"
    by auto
  from first second show ?thesis ..
qed

lemma upt8: "[0..<8] = [0, 1, 2, 3, 4, 5, 6, 7]"
  by (simp add: upt_rec)

text \<open>
  With nothing fetched and no day chosen yet, the buttons are computed for today, whose
  entry is \<open>true\<close>; the filter is AM, and the buttons of the three morning slots are
  enabled.
\<close>

theorem fully_booked_slot_counterexample:
  "handleFetch_schedule parse_wire \<lparr>year = 2024, month = 6, dayOfMonth = 15\<rparr> []
     (format_YYYY_DD_MM \<lparr>year = 2024, month = 6, dayOfMonth = 15\<rparr>) = Some FullyBooked \<and>
   appointmentDate (run parse_wire \<lparr>year = 2024, month = 6, dayOfMonth = 15\<rparr> [Fetched []]) = None \<and>
   appointmentMeridiem (run parse_wire \<lparr>year = 2024, month = 6, dayOfMonth = 15\<rparr> [Fetched []]) = 0 \<and>
   map (format_a \<circ> slot_time \<lparr>year = 2024, month = 6, dayOfMonth = 15\<rparr>) [0, 1, 2]
     = [''am'', ''am'', ''am''] \<and>
   map_sum id (map_option (map disabled))
     (renderAppointmentTimes (run parse_wire \<lparr>year = 2024, month = 6, dayOfMonth = 15\<rparr> [Fetched []])
        \<lparr>year = 2024, month = 6, dayOfMonth = 15\<rparr>)
   = Inr (Some [False, False, False, True, True, True, True, True])"
  by (simp add: run_def constructor_def handleFetch_def renderAppointmentTimes_def
      renderRadio_def Let_def moment_of_def handleFetch_schedule_Nil scheduleDisabled_def
      meridiemDisabled_def slot_meridiem upt8)

section \<open>The matcher decides the language of a pattern\<close>

lemma conc_iff: "w \<in> conc A B \<longleftrightarrow> (\<exists>u v. w = u @ v \<and> u \<in> A \<and> v \<in> B)"
  by (auto simp: conc_def)

lemma nullable_lang: "nullable r \<longleftrightarrow> [] \<in> lang r"
  by (induction r) (auto simp: conc_iff intro: star_empty)

lemma Cons_in_conc:
  "c # w \<in> conc A B \<longleftrightarrow>
   ([] \<in> A \<and> c # w \<in> B) \<or> (\<exists>u v. w = u @ v \<and> c # u \<in> A \<and> v \<in> B)"
proof
  assume "c # w \<in> conc A B"
  then obtain u v where uv: "c # w = u @ v" "u \<in> A" "v \<in> B" by (auto simp: conc_iff)
  show "([] \<in> A \<and> c # w \<in> B) \<or> (\<exists>u v. w = u @ v \<and> c # u \<in> A \<and> v \<in> B)"
  proof (cases u)
    case Nil
    with uv show ?thesis by simp
  next
    case (Cons x xs)
    with uv show ?thesis by auto
  qed
next
  assume "([] \<in> A \<and> c # w \<in> B) \<or> (\<exists>u v. w = u @ v \<and> c # u \<in> A \<and> v \<in> B)"
  then show "c # w \<in> conc A B"
  proof
    assume "[] \<in> A \<and> c # w \<in> B"
    then have "[] @ (c # w) \<in> conc A B" unfolding conc_iff by blast
    then show ?thesis by simp
  next
    assume "\<exists>u v. w = u @ v \<and> c # u \<in> A \<and> v \<in> B"
    then obtain u v where "w = u @ v" "c # u \<in> A" "v \<in> B" by blast
    then have "(c # u) @ v \<in> conc A B" unfolding conc_iff by blast
    with \<open>w = u @ v\<close> show ?thesis by simp
  qed
qed

lemma star_Cons_split:
  assumes "x \<in> star A" and "x = c # w"
  shows "\<exists>u v. w = u @ v \<and> c # u \<in> A \<and> v \<in> star A"
  using assms
proof (induction arbitrary: w rule: star.induct)
  case star_empty
  then show ?case by simp
next
  case (star_more u v)
  show ?case
  proof (cases u)
    case Nil
    with star_more show ?thesis by simp
  next
    case (Cons y ys)
    with star_more.prems have "y = c" "w = ys @ v" by simp_all
    with Cons star_more.hyps show ?thesis by blast
  qed
qed

lemma Cons_in_star:
  "c # w \<in> star A \<longleftrightarrow> (\<exists>u v. w = u @ v \<and> c # u \<in> A \<and> v \<in> star A)"
proof
  assume "c # w \<in> star A"
  then show "\<exists>u v. w = u @ v \<and> c # u \<in> A \<and> v \<in> star A"
    by (rule star_Cons_split) simp
next
  assume "\<exists>u v. w = u @ v \<and> c # u \<in> A \<and> v \<in> star A"
  then obtain u v where "w = u @ v" "c # u \<in> A" "v \<in> star A" by blast
  then have "(c # u) @ v \<in> star A" by (intro star_more)
  with \<open>w = u @ v\<close> show "c # w \<in> star A" by simp
qed

lemma deriv_lang: "w \<in> lang (deriv c r) \<longleftrightarrow> c # w \<in> lang r"
proof (induction r arbitrary: w)
  case (Seq r s)
  then show ?case
    by (simp add: Cons_in_conc nullable_lang) (auto simp: conc_iff)
next
  case (Star r)
  then show ?case by (simp add: Cons_in_star conc_iff)
qed auto

lemma foldl_deriv_lang: "[] \<in> lang (foldl (\<lambda>r c. deriv c r) r w) \<longleftrightarrow> w \<in> lang r"
  by (induction w arbitrary: r) (simp_all add: deriv_lang)

lemma matches_lang: "matches r w \<longleftrightarrow> w \<in> lang r"
  by (simp add: matches_def nullable_lang foldl_deriv_lang)

lemma lang_lit: "w \<in> lang (lit c) \<longleftrightarrow> w = [c]"
  by (auto simp: lit_def)

lemma lang_digit: "w \<in> lang digit \<longleftrightarrow> (\<exists>c. w = [c] \<and> is_digit c)"
  by (auto simp: digit_def)

lemma lang_space: "w \<in> lang space \<longleftrightarrow> (\<exists>c. w = [c] \<and> js_space c)"
  by (auto simp: space_def)

lemma lang_opt: "w \<in> lang (opt_re r) \<longleftrightarrow> w = [] \<or> w \<in> lang r"
  by (auto simp: opt_re_def)

lemma lang_Seq: "w \<in> lang (Seq r s) \<longleftrightarrow> (\<exists>u v. w = u @ v \<and> u \<in> lang r \<and> v \<in> lang s)"
  by (simp add: conc_iff)

lemma lang_SeqI: "u \<in> lang r \<Longrightarrow> v \<in> lang s \<Longrightarrow> u @ v \<in> lang (Seq r s)"
  by (auto simp: conc_iff)

lemma space_not_digit: "js_space c \<Longrightarrow> \<not> is_digit c"
  by (auto simp: js_space_def is_digit_def)

section \<open>The validators\<close>

subsection \<open>The digits of an accepted telephone number\<close>

lemma strip_append: "strip_non_digits (u @ v) = strip_non_digits u @ strip_non_digits v"
  by (simp add: strip_non_digits_def)

lemma strip_digit: "w \<in> lang digit \<Longrightarrow> strip_non_digits w = w \<and> length w = 1"
  by (auto simp: lang_digit strip_non_digits_def)

lemma strip_digits3:
  assumes "w \<in> lang digits3"
  shows "strip_non_digits w = w \<and> length w = 3"
proof -
  from assms obtain x y z where "w = x @ y @ z"
    and "x \<in> lang digit" "y \<in> lang digit" "z \<in> lang digit"
    unfolding digits3_def lang_Seq by blast
  then show ?thesis by (auto simp: strip_append dest!: strip_digit)
qed

lemma strip_one: "strip_non_digits ''1'' = ''1''"
  by (simp add: strip_non_digits_def is_digit_def)

lemma strip_space: "js_space c \<Longrightarrow> strip_non_digits [c] = []"
  by (simp add: strip_non_digits_def space_not_digit)

lemma strip_punctuation:
  "strip_non_digits ''('' = []" "strip_non_digits '')'' = []" "strip_non_digits ''-'' = []"
  by (simp_all add: strip_non_digits_def is_digit_def)

lemma strip_prefix:
  assumes "w \<in> lang (opt_re (Alt (Seq (lit (CHR ''1'')) space) (Alt (lit (CHR ''1'')) One)))"
  shows "strip_non_digits w = [] \<or> strip_non_digits w = ''1''"
proof -
  from assms consider "w = []" | c where "w = ''1'' @ [c]" "js_space c" | "w = ''1''"
    unfolding lang_opt lang.simps(4) Un_iff lang_Seq lang_lit lang_space by auto
  then show ?thesis
  proof cases
    case 1
    then show ?thesis by (simp add: strip_non_digits_def)
  next
    case 2
    then show ?thesis by (simp only: strip_append strip_one strip_space) simp
  next
    case 3
    then show ?thesis by (simp only: strip_one) simp
  qed
qed

lemma strip_area:
  assumes "w \<in> lang (Alt (Seq (lit (CHR ''('')) (Seq digits3 (lit (CHR '')'')))) digits3)"
  shows "length (strip_non_digits w) = 3"
proof -
  from assms consider d where "w = ''('' @ d @ '')''" "d \<in> lang digits3" | "w \<in> lang digits3"
    unfolding lang.simps(4) Un_iff lang_Seq lang_lit by auto
  then show ?thesis
  proof cases
    case 1
    from strip_digits3 [OF 1(2)] show ?thesis
      by (simp add: 1(1) strip_append strip_punctuation del: append.simps)
  next
    case 2
    from strip_digits3 [OF 2] show ?thesis by simp
  qed
qed

lemma strip_separator:
  assumes "w \<in> lang (opt_re (Alt (lit (CHR ''-'')) space))"
  shows "strip_non_digits w = []"
proof -
  from assms consider "w = []" | "w = ''-''" | c where "w = [c]" "js_space c"
    unfolding lang_opt lang.simps(4) Un_iff lang_lit lang_space by auto
  then show ?thesis
    by cases (simp_all add: strip_punctuation strip_space, simp add: strip_non_digits_def)
qed

lemma phone_digits:
  assumes "matches phone_regex w"
  shows "\<exists>p a b c. strip_non_digits w = p @ a @ b @ c \<and> (p = [] \<or> p = ''1'') \<and>
           length a = 3 \<and> length b = 3 \<and> length c = 4"
proof -
  from assms obtain u1 u2 u3 u4 u5 u6 where w: "w = u1 @ u2 @ u3 @ u4 @ u5 @ u6"
    and 1: "u1 \<in> lang (opt_re (Alt (Seq (lit (CHR ''1'')) space) (Alt (lit (CHR ''1'')) One)))"
    and 2: "u2 \<in> lang (Alt (Seq (lit (CHR ''('')) (Seq digits3 (lit (CHR '')'')))) digits3)"
    and 3: "u3 \<in> lang (opt_re (Alt (lit (CHR ''-'')) space))"
    and 4: "u4 \<in> lang digits3"
    and 5: "u5 \<in> lang (opt_re (Alt (lit (CHR ''-'')) space))"
    and 6: "u6 \<in> lang (Seq digit digits3)"
    unfolding matches_lang phone_regex_def lang_Seq by blast
  from 6 obtain x y where "u6 = x @ y" "x \<in> lang digit" "y \<in> lang digits3"
    unfolding lang_Seq by blast
  then have l6: "length (strip_non_digits u6) = 4"
    by (auto simp: strip_append dest!: strip_digit strip_digits3)
  have "strip_non_digits w =
        strip_non_digits u1 @ strip_non_digits u2 @ strip_non_digits u4 @ strip_non_digits u6"
    by (simp add: w strip_append strip_separator [OF 3] strip_separator [OF 5])
  moreover from 4 have "length (strip_non_digits u4) = 3" by (auto dest: strip_digits3)
  ultimately show ?thesis
    using strip_prefix [OF 1] strip_area [OF 2] l6 by blast
qed

lemma phone_digit_count:
  assumes "matches phone_regex w"
  shows "length (strip_non_digits w) = 10 \<or>
         (length (strip_non_digits w) = 11 \<and> hd (strip_non_digits w) = CHR ''1'')"
  using phone_digits [OF assms] by auto

lemma digits3_intro:
  assumes "length w = 3" and "\<forall>c\<in>set w. is_digit c"
  shows "w \<in> lang digits3"
proof -
  from assms(1) obtain x y z where w: "w = [x] @ [y] @ [z]"
    by (auto simp: length_Suc_conv eval_nat_numeral)
  with assms(2) have "[x] \<in> lang digit" "[y] \<in> lang digit" "[z] \<in> lang digit"
    by (simp_all add: lang_digit)
  then show ?thesis unfolding w digits3_def by (intro lang_SeqI)
qed

lemma split_ten:
  assumes "length w = 10"
  shows "w = take 3 w @ take 3 (drop 3 w) @ take 1 (drop 6 w) @ drop 7 w"
proof -
  have "take 3 (drop 3 w) @ take 1 (drop 6 w) @ drop 7 w = drop 3 w"
  proof -
    have "take 1 (drop 6 w) @ drop 7 w = drop 6 w"
      using append_take_drop_id [of 1 "drop 6 w"] by simp
    moreover have "take 3 (drop 3 w) @ drop 6 w = drop 3 w"
      using append_take_drop_id [of 3 "drop 3 w"] by simp
    ultimately show ?thesis by simp
  qed
  then show ?thesis by simp
qed

lemma ten_digits_accepted:
  assumes "length w = 10" and "list_all is_digit w"
  shows "matches phone_regex w \<and> matches phone_regex (CHR ''1'' # w)"
proof -
  let ?a = "take 3 w" and ?b = "take 3 (drop 3 w)" and ?c = "take 1 (drop 6 w)" and ?d = "drop 7 w"
  let ?sep = "opt_re (Alt (lit (CHR ''-'')) space)"
  let ?area = "Alt (Seq (lit (CHR ''('')) (Seq digits3 (lit (CHR '')'')))) digits3"
  let ?pre = "opt_re (Alt (Seq (lit (CHR ''1'')) space) (Alt (lit (CHR ''1'')) One))"
  from assms(2) have all: "\<forall>c\<in>set w. is_digit c" by (simp add: list_all_iff)
  have a: "?a \<in> lang digits3"
    using assms(1) all by (intro digits3_intro) (auto dest: in_set_takeD)
  have b: "?b \<in> lang digits3"
    using assms(1) all by (intro digits3_intro) (auto dest!: in_set_takeD in_set_dropD)
  have d: "?d \<in> lang digits3"
    using assms(1) all by (intro digits3_intro) (auto dest: in_set_dropD)
  have "length ?c = Suc 0" using assms(1) by simp
  then obtain x where x: "?c = [x]" unfolding length_Suc_conv by blast
  then have "x \<in> set ?c" by simp
  then have "x \<in> set w" by (auto dest!: in_set_takeD in_set_dropD)
  with all x have c: "?c \<in> lang digit" by (simp add: lang_digit)
  have area: "?a \<in> lang ?area" using a by simp
  have sep: "[] \<in> lang ?sep" by (simp add: lang_opt)
  have "?a @ [] @ ?b @ [] @ ?c @ ?d \<in>
        lang (Seq ?area (Seq ?sep (Seq digits3 (Seq ?sep (Seq digit digits3)))))"
    by (intro lang_SeqI area sep b c d)
  then have body: "w \<in> lang (Seq ?area (Seq ?sep (Seq digits3 (Seq ?sep (Seq digit digits3)))))"
    using split_ten [OF assms(1)] by simp
  have "[] \<in> lang ?pre" by (simp add: lang_opt)
  from lang_SeqI [OF this body] have 1: "matches phone_regex w"
    by (simp add: matches_lang phone_regex_def)
  have "''1'' \<in> lang ?pre" by (simp add: lang_opt lang_lit)
  from lang_SeqI [OF this body] have 2: "matches phone_regex (CHR ''1'' # w)"
    by (simp add: matches_lang phone_regex_def)
  from 1 2 show ?thesis ..
qed

subsection \<open>The shape of an accepted e-mail address\<close>

lemma lang_plus:
  "w \<in> lang (plus_re r) \<longleftrightarrow> (\<exists>u v. w = u @ v \<and> u \<in> lang r \<and> v \<in> star (lang r))"
  by (simp add: plus_re_def conc_iff)

lemma star_atoms: "v \<in> star (lang (Atom p)) \<Longrightarrow> \<forall>c\<in>set v. p c"
  by (induction rule: star.induct) auto

lemma plus_atoms:
  assumes "w \<in> lang (plus_re (Atom p))"
  shows "w \<noteq> [] \<and> (\<forall>c\<in>set w. p c)"
proof -
  from assms obtain u v where "w = u @ v" "u \<in> lang (Atom p)" "v \<in> star (lang (Atom p))"
    unfolding lang_plus by blast
  with star_atoms [of v p] show ?thesis by auto
qed

lemma local_nonempty: "w \<in> lang email_local \<Longrightarrow> w \<noteq> []"
  unfolding email_local_def lang.simps(4) Un_iff lang_Seq lang_lit
  by (auto dest: plus_atoms)

lemma star_labels:
  assumes "v \<in> star (lang (Seq (plus_re (Atom email_char)) (lit (CHR ''.''))))"
  shows "v = [] \<or> (\<exists>d. v = d @ ''.'' \<and> d \<noteq> [])"
  using assms
proof (induction rule: star.induct)
  case star_empty
  show ?case by simp
next
  case (star_more u v)
  from star_more.hyps(1) obtain a where u: "u = a @ ''.''" and a: "a \<noteq> []"
    unfolding lang_Seq lang_lit by (auto dest: plus_atoms)
  from star_more.IH show ?case
  proof
    assume "v = []"
    with u a show ?thesis by simp
  next
    assume "\<exists>d. v = d @ ''.'' \<and> d \<noteq> []"
    then obtain d where "v = d @ ''.''" by blast
    with u have "u @ v = (a @ ''.'' @ d) @ ''.''" by simp
    with a show ?thesis by blast
  qed
qed

lemma labels:
  assumes "w \<in> lang (plus_re (Seq (plus_re (Atom email_char)) (lit (CHR ''.''))))"
  shows "\<exists>d. w = d @ ''.'' \<and> d \<noteq> []"
proof -
  let ?label = "Seq (plus_re (Atom email_char)) (lit (CHR ''.''))"
  from assms obtain u v where w: "w = u @ v" and "u \<in> lang ?label" and v: "v \<in> star (lang ?label)"
    unfolding lang_plus by blast
  then obtain a where u: "u = a @ ''.''" and a: "a \<noteq> []"
    unfolding lang_Seq lang_lit by (auto dest: plus_atoms)
  from star_labels [OF v] show ?thesis
  proof
    assume "v = []"
    with w u a show ?thesis by simp
  next
    assume "\<exists>d. v = d @ ''.'' \<and> d \<noteq> []"
    then obtain d where "v = d @ ''.''" by blast
    with w u have "w = (a @ ''.'' @ d) @ ''.''" by simp
    with a show ?thesis by blast
  qed
qed

lemma final_label:
  assumes "w \<in> lang (Seq (Atom email_char) (Seq (Atom email_char) (Star (Atom email_char))))"
  shows "2 \<le> length w \<and> (\<forall>c\<in>set w. email_char c)"
proof -
  from assms obtain x y v where "w = [x] @ [y] @ v" "email_char x" "email_char y"
    and "v \<in> star (lang (Atom email_char))"
    unfolding lang_Seq by auto
  with star_atoms [of v email_char] show ?thesis by auto
qed

lemma email_shape:
  assumes "matches email_regex w"
  shows "\<exists>l d t. w = l @ ''@'' @ d @ ''.'' @ t \<and> l \<noteq> [] \<and> d \<noteq> [] \<and> 2 \<le> length t \<and>
           (\<forall>c\<in>set t. email_char c)"
proof -
  from assms obtain l x t where w: "w = l @ ''@'' @ x @ t"
    and l: "l \<in> lang email_local"
    and x: "x \<in> lang (plus_re (Seq (plus_re (Atom email_char)) (lit (CHR ''.''))))"
    and t: "t \<in> lang (Seq (Atom email_char) (Seq (Atom email_char) (Star (Atom email_char))))"
    unfolding matches_lang email_regex_def email_domain_def lang_Seq lang_lit by blast
  from labels [OF x] obtain d where "x = d @ ''.''" "d \<noteq> []" by blast
  with w local_nonempty [OF l] final_label [OF t] show ?thesis by auto
qed

lemma email_char_not_dot: "email_char c \<Longrightarrow> c \<noteq> CHR ''.'' \<and> c \<noteq> CHR ''@''"
  by (auto simp: email_char_def)

subsection \<open>The examples\<close>

lemma phone_ok1: "matches phone_regex ''(888) 888-8888''" by code_simp

lemma phone_ok2: "matches phone_regex ''18888888888''" by code_simp

lemma phone_bad: "\<not> matches phone_regex ''12345''" by code_simp

lemma phone_555: "matches phone_regex ''(555) 123-4567''" by code_simp

lemma strip_example: "strip_non_digits ''(888) 888-8888'' = ''8888888888''" by code_simp

lemma strip_555: "strip_non_digits ''(555) 123-4567'' = ''5551234567''" by code_simp

lemma strip_non_digits_digits: "list_all is_digit (strip_non_digits s)"
  by (simp add: strip_non_digits_def list_all_iff)

lemma digits_555: "list_all is_digit ''5551234567''" by code_simp
lemma strip_plus: "strip_non_digits ''+1 (555) 123-4567'' = ''15551234567''" by code_simp

text \<open>
  C6. The telephone pattern accepts \<open>(888) 888-8888\<close> and \<open>18888888888\<close> and
  rejects \<open>12345\<close>. A string it accepts has ten digits, or eleven of which the first
  is 1; ten digits alone, or after a 1, are accepted. The server's normalisation keeps
  the digits of its input, in their order, and nothing else, so \<open>(888) 888-8888\<close>
  becomes \<open>8888888888\<close>.
\<close>

theorem phone_validator:
  "validatePhone ''(888) 888-8888'' st = st\<lparr>phone := Some ''(888) 888-8888'', validPhone := True\<rparr> \<and>
   validatePhone ''18888888888'' st = st\<lparr>phone := Some ''18888888888'', validPhone := True\<rparr> \<and>
   validatePhone ''12345'' st = st\<lparr>validPhone := False\<rparr> \<and>
   (matches phone_regex w \<longrightarrow>
      length (strip_non_digits w) = 10 \<or>
      (length (strip_non_digits w) = 11 \<and> hd (strip_non_digits w) = CHR ''1'')) \<and>
   (length d = 10 \<and> list_all is_digit d \<longrightarrow>
      matches phone_regex d \<and> matches phone_regex (CHR ''1'' # d)) \<and>
   strip_non_digits ''(888) 888-8888'' = ''8888888888'' \<and>
   list_all is_digit (strip_non_digits s) \<and>
   filter is_digit (strip_non_digits s) = filter is_digit s"
proof (intro conjI impI)
  show "validatePhone ''(888) 888-8888'' st = st\<lparr>phone := Some ''(888) 888-8888'', validPhone := True\<rparr>"
    by (simp add: validatePhone_def phone_ok1)
  show "validatePhone ''18888888888'' st = st\<lparr>phone := Some ''18888888888'', validPhone := True\<rparr>"
    by (simp add: validatePhone_def phone_ok2)
  show "validatePhone ''12345'' st = st\<lparr>validPhone := False\<rparr>"
    by (simp add: validatePhone_def phone_bad)
  show "length (strip_non_digits w) = 10 \<or>
      (length (strip_non_digits w) = 11 \<and> hd (strip_non_digits w) = CHR ''1'')"
    if "matches phone_regex w"
    using that by (rule phone_digit_count)
  show "matches phone_regex d" and "matches phone_regex (CHR ''1'' # d)"
    if "length d = 10 \<and> list_all is_digit d"
    using that ten_digits_accepted [of d] by blast+
  show "strip_non_digits ''(888) 888-8888'' = ''8888888888''"
    by (rule strip_example)
  show "list_all is_digit (strip_non_digits s)"
    by (rule strip_non_digits_digits)
  show "filter is_digit (strip_non_digits s) = filter is_digit s"
    by (simp add: strip_non_digits_def)
qed

theorem phone_validator_witness:
  "matches phone_regex ''(555) 123-4567'' \<and>
   length (strip_non_digits ''(555) 123-4567'') = 10 \<and>
   length ''5551234567'' = 10 \<and> list_all is_digit ''5551234567'' \<and>
   matches phone_regex ''15551234567'' \<and>
   list_all is_digit (strip_non_digits ''+1 (555) 123-4567'')"
proof -
  note t = phone_validator [of constructor "''(555) 123-4567''" "''5551234567''"
        "''+1 (555) 123-4567''"]
  have l: "length ''5551234567'' = 10" by simp
  from t l digits_555 have "matches phone_regex ''15551234567''" by blast
  moreover from t have "list_all is_digit (strip_non_digits ''+1 (555) 123-4567'')" by blast
  moreover have "length (strip_non_digits ''(555) 123-4567'') = 10"
    by (simp add: strip_555)
  ultimately show ?thesis using l digits_555 phone_555 by blast
qed

lemma email_ok: "matches email_regex ''a@b.com''" by code_simp

lemma email_bad1: "\<not> matches email_regex ''a@b''" by code_simp

lemma email_bad2: "\<not> matches email_regex ''not-an-email''" by code_simp

lemma jane_ok: "matches email_regex ''jane@doe.com''" by code_simp

lemma jane_bad: "\<not> matches email_regex ''jane@doe''" by code_simp

lemma email_upper: "matches email_regex ''A@B.COM''" by code_simp

text \<open>
  C7. The e-mail pattern accepts \<open>a@b.com\<close> and rejects \<open>a@b\<close> and
  \<open>not-an-email\<close>. A string it accepts is a non-empty local part, an \<open>@\<close>, a
  non-empty domain prefix, a dot and a final label of at least two characters, none
  of them a dot or an \<open>@\<close>. The pattern names no letter, so the case of the letters
  makes no difference: \<open>A@B.COM\<close> is accepted as well.
\<close>

theorem email_validator:
  "validateEmail ''a@b.com'' st = st\<lparr>email := Some ''a@b.com'', validEmail := True\<rparr> \<and>
   validateEmail ''a@b'' st = st\<lparr>validEmail := False\<rparr> \<and>
   validateEmail ''not-an-email'' st = st\<lparr>validEmail := False\<rparr> \<and>
   validateEmail ''A@B.COM'' st = st\<lparr>email := Some ''A@B.COM'', validEmail := True\<rparr> \<and>
   (matches email_regex w \<longrightarrow>
      (\<exists>l d t. w = l @ ''@'' @ d @ ''.'' @ t \<and> l \<noteq> [] \<and> d \<noteq> [] \<and> 2 \<le> length t \<and>
               CHR ''.'' \<notin> set t \<and> CHR ''@'' \<notin> set t))"
proof (intro conjI impI)
  show "validateEmail ''a@b.com'' st = st\<lparr>email := Some ''a@b.com'', validEmail := True\<rparr>"
    by (simp add: validateEmail_def email_ok)
  show "validateEmail ''a@b'' st = st\<lparr>validEmail := False\<rparr>"
    by (simp add: validateEmail_def email_bad1)
  show "validateEmail ''not-an-email'' st = st\<lparr>validEmail := False\<rparr>"
    by (simp add: validateEmail_def email_bad2)
  show "validateEmail ''A@B.COM'' st = st\<lparr>email := Some ''A@B.COM'', validEmail := True\<rparr>"
    by (simp add: validateEmail_def email_upper)
  assume "matches email_regex w"
  from email_shape [OF this] obtain l d t
    where "w = l @ ''@'' @ d @ ''.'' @ t" "l \<noteq> []" "d \<noteq> []" "2 \<le> length t"
      and "\<forall>c\<in>set t. email_char c"
    by blast
  moreover from this(5) have "CHR ''.'' \<notin> set t \<and> CHR ''@'' \<notin> set t"
    using email_char_not_dot by blast
  ultimately show "\<exists>l d t. w = l @ ''@'' @ d @ ''.'' @ t \<and> l \<noteq> [] \<and> d \<noteq> [] \<and> 2 \<le> length t \<and>
               CHR ''.'' \<notin> set t \<and> CHR ''@'' \<notin> set t"
    by blast
qed

theorem email_validator_witness:
  "matches email_regex ''jane@doe.com'' \<and>
   (\<exists>l d t. ''jane@doe.com'' = l @ ''@'' @ d @ ''.'' @ t \<and> l \<noteq> [] \<and> d \<noteq> [] \<and>
            2 \<le> length t \<and> CHR ''.'' \<notin> set t \<and> CHR ''@'' \<notin> set t)"
  using email_validator [of constructor "''jane@doe.com''"] jane_ok by blast

subsection \<open>The stored contact fields\<close>

lemma email_inputs_snoc:
  "email_inputs (evs @ [e]) = email_inputs evs @ (case e of TypeEmail v \<Rightarrow> [v] | _ \<Rightarrow> [])"
  by (induction evs rule: email_inputs.induct) (simp_all split: event.splits)

lemma phone_inputs_snoc:
  "phone_inputs (evs @ [e]) = phone_inputs evs @ (case e of TypePhone v \<Rightarrow> [v] | _ \<Rightarrow> [])"
  by (induction evs rule: phone_inputs.induct) (simp_all split: event.splits)

lemma last_accepted_snoc:
  "last_accepted r (xs @ [x]) = (if matches r x then Some x else last_accepted r xs)"
  by (simp add: last_accepted_def)

lemma last_accepted_Nil: "last_accepted r [] = None"
  by (simp add: last_accepted_def)

lemma last_accepted_matches: "last_accepted r xs = Some x \<Longrightarrow> matches r x"
proof (induction xs rule: rev_induct)
  case Nil
  then show ?case by (simp add: last_accepted_Nil)
next
  case (snoc y ys)
  then show ?case by (auto simp: last_accepted_snoc split: if_splits)
qed

lemma dispatch_email:
  "email (dispatch parse today st e) =
     (case e of TypeEmail v \<Rightarrow> if matches email_regex v then Some v else email st | _ \<Rightarrow> email st)"
  by (cases e)
    (simp_all add: handleFetch_def handleSetAppointmentDate_def handleSetAppointmentSlot_def
      handleSetAppointmentMeridiem_def handleNextStep_def validateEmail_def validatePhone_def
      handleSubmit_then_def handleSubmit_catch_def handleFetchError_def)

lemma dispatch_phone:
  "phone (dispatch parse today st e) =
     (case e of TypePhone v \<Rightarrow> if matches phone_regex v then Some v else phone st | _ \<Rightarrow> phone st)"
  by (cases e)
    (simp_all add: handleFetch_def handleSetAppointmentDate_def handleSetAppointmentSlot_def
      handleSetAppointmentMeridiem_def handleNextStep_def validateEmail_def validatePhone_def
      handleSubmit_then_def handleSubmit_catch_def handleFetchError_def)

lemma run_snoc: "run parse today (evs @ [e]) = dispatch parse today (run parse today evs) e"
  by (simp add: run_def)

lemma run_email: "email (run parse today evs) = last_accepted email_regex (email_inputs evs)"
proof (induction evs rule: rev_induct)
  case Nil
  show ?case by (simp add: run_def constructor_def last_accepted_Nil)
next
  case (snoc e evs)
  then show ?case
    by (simp add: run_snoc dispatch_email email_inputs_snoc last_accepted_snoc
        split: event.splits)
qed

lemma run_phone: "phone (run parse today evs) = last_accepted phone_regex (phone_inputs evs)"
proof (induction evs rule: rev_induct)
  case Nil
  show ?case by (simp add: run_def constructor_def last_accepted_Nil)
next
  case (snoc e evs)
  then show ?case
    by (simp add: run_snoc dispatch_phone phone_inputs_snoc last_accepted_snoc
        split: event.splits)
qed

text \<open>
  C9. A validator stores its input only when the pattern accepts it; on any other input
  it changes nothing but the flag. So after any sequence of events a stored e-mail
  address or telephone number matches its pattern, and the appointment that
  \<open>handleSubmit\<close> posts carries the last accepted input of each field, whatever was
  typed after it.
\<close>

theorem contact_fields:
  "validateEmail v st =
     (if matches email_regex v then st\<lparr>email := Some v, validEmail := True\<rparr>
      else st\<lparr>validEmail := False\<rparr>) \<and>
   validatePhone v st =
     (if matches phone_regex v then st\<lparr>phone := Some v, validPhone := True\<rparr>
      else st\<lparr>validPhone := False\<rparr>) \<and>
   (\<forall>e. email (run parse today evs) = Some e \<longrightarrow> matches email_regex e) \<and>
   (\<forall>p. phone (run parse today evs) = Some p \<longrightarrow> matches phone_regex p) \<and>
   ap_email (handleSubmit (run parse today evs) today) = last_accepted email_regex (email_inputs evs) \<and>
   ap_phone (handleSubmit (run parse today evs) today) = last_accepted phone_regex (phone_inputs evs)"
  by (auto simp: validateEmail_def validatePhone_def run_email run_phone handleSubmit_def
      dest: last_accepted_matches)

theorem contact_fields_witness:
  "ap_email
     (handleSubmit
        (run parse_wire \<lparr>year = 2024, month = 6, dayOfMonth = 15\<rparr>
           [TypeEmail ''jane@doe.com'', TypeEmail ''jane@doe''])
        \<lparr>year = 2024, month = 6, dayOfMonth = 15\<rparr>) = Some ''jane@doe.com'' \<and>
   matches email_regex ''jane@doe.com'' \<and> \<not> matches email_regex ''jane@doe''"
  using contact_fields [of "''x''" constructor parse_wire "\<lparr>year = 2024, month = 6, dayOfMonth = 15\<rparr>"
      "[TypeEmail ''jane@doe.com'', TypeEmail ''jane@doe'']"]
  by (simp add: last_accepted_def jane_ok jane_bad)

section \<open>The server\<close>

text \<open>
  C8. When the handler gets as far as its two outgoing calls, the object is written to
  the store exactly when the store accepts it, and the response says so; neither
  depends on whether the text message could be sent.
\<close>

theorem send_and_store_independent:
  assumes "post_appointments parse cfg req = Inr (msg, obj)"
  shows "\<exists>w'. api_appointments parse cfg twilio_ok cosmic_ok req w =
                 Inr (w', if cosmic_ok obj then ''succes'' else ''error '') \<and>
              stored w' = (if cosmic_ok obj then stored w @ [obj] else stored w) \<and>
              sent w' = (if twilio_ok msg then sent w @ [msg] else sent w)"
  using assms
  by (simp add: api_appointments_def cosmic_add_def twilio_create_def)

theorem send_and_store_independent_witness:
  "\<exists>w'. api_appointments parse_wire
           \<lparr>bucket_slug = ''bucket'', bucket_write_key = ''key'', twilio_number = ''+15005550006''\<rparr>
           (\<lambda>msg. False) (\<lambda>obj. True)
           \<lparr>ap_date = ''2024-16-06'', ap_slot = Some 2, ap_name = ''Jane Doe'',
            ap_email = Some ''jane@doe.com'', ap_phone = Some ''5551234567''\<rparr>
           \<lparr>sent = [], console = [], stored = []\<rparr> = Inr (w', ''succes'') \<and>
         length (stored w') = 1 \<and> sent w' = []"
proof -
  let ?cfg = "\<lparr>bucket_slug = ''bucket'', bucket_write_key = ''key'', twilio_number = ''+15005550006''\<rparr>"
  let ?req = "\<lparr>ap_date = ''2024-16-06'', ap_slot = Some 2, ap_name = ''Jane Doe'',
            ap_email = Some ''jane@doe.com'', ap_phone = Some ''5551234567''\<rparr>"
  obtain msg obj where "post_appointments parse_wire ?cfg ?req = Inr (msg, obj)"
    by (simp add: post_appointments_def Let_def)
  from send_and_store_independent [OF this, of "\<lambda>msg. False" "\<lambda>obj. True"
      "\<lparr>sent = [], console = [], stored = []\<rparr>"]
  show ?thesis by auto
qed

lemma time_11:
  "format_h_mm_a (add_hours (startOf_day \<lparr>year = 2024, month = 6, dayOfMonth = 16\<rparr>\<lparr>hours := 9\<rparr>) 2)
   = ''11:00 am''"
  by code_simp

lemma day_11:
  "m_day (add_hours (startOf_day \<lparr>year = 2024, month = 6, dayOfMonth = 16\<rparr>\<lparr>hours := 9\<rparr>) 2)
   = \<lparr>year = 2024, month = 6, dayOfMonth = 16\<rparr>"
  by code_simp

lemma sunday:
  "format_dddd_MMMM_Do_YYYY \<lparr>year = 2024, month = 6, dayOfMonth = 16\<rparr> = ''Sunday June 16th, 2024''"
  by code_simp

text \<open>
  C2. Today is the 15th of June 2024 and nothing has been fetched. The 16th can be
  picked, the button of slot 2 is enabled, and after the names, the e-mail address and
  a telephone number that the pattern accepts and whose digits are 5551234567, the form
  is filled. \<open>handleSubmit\<close> posts the date in wire format, the slot, the joined name,
  the address and the telephone number as typed; the server strips the number and
  builds the text message, which names 11:00 am and Sunday June 16th, 2024, and the
  object that is written to the store when the store accepts it. The parser is assumed to read \<open>2024-16-06\<close> as the 16th of
  June 2024.
\<close>

theorem end_to_end:
  assumes parse: "parse ''2024-16-06'' = Some \<lparr>year = 2024, month = 6, dayOfMonth = 16\<rparr>"
    and valid: "matches phone_regex p"
    and digits: "strip_non_digits p = ''5551234567''"
  shows
    "\<not> checkDisableDate (handleFetch_schedule parse \<lparr>year = 2024, month = 6, dayOfMonth = 15\<rparr> [])
         \<lparr>year = 2024, month = 6, dayOfMonth = 15\<rparr> \<lparr>year = 2024, month = 6, dayOfMonth = 16\<rparr> \<and>
     map_sum id (map_option (\<lambda>radios. disabled (radios ! 2)))
       (renderAppointmentTimes
          (run parse \<lparr>year = 2024, month = 6, dayOfMonth = 15\<rparr>
             [Fetched [], PickDate \<lparr>year = 2024, month = 6, dayOfMonth = 16\<rparr>])
          \<lparr>year = 2024, month = 6, dayOfMonth = 15\<rparr>) = Inr (Some False) \<and>
     contactFormFilled
       (run parse \<lparr>year = 2024, month = 6, dayOfMonth = 15\<rparr>
          [Fetched [], PickDate \<lparr>year = 2024, month = 6, dayOfMonth = 16\<rparr>, PickSlot 2,
           TypeFirstName ''Jane'', TypeLastName ''Doe'', TypeEmail ''jane@doe.com'', TypePhone p,
           ToggleDialog]) \<and>
     handleSubmit
       (run parse \<lparr>year = 2024, month = 6, dayOfMonth = 15\<rparr>
          [Fetched [], PickDate \<lparr>year = 2024, month = 6, dayOfMonth = 16\<rparr>, PickSlot 2,
           TypeFirstName ''Jane'', TypeLastName ''Doe'', TypeEmail ''jane@doe.com'', TypePhone p,
           ToggleDialog])
       \<lparr>year = 2024, month = 6, dayOfMonth = 15\<rparr>
     = \<lparr>ap_date = ''2024-16-06'', ap_slot = Some 2, ap_name = ''Jane Doe'',
        ap_email = Some ''jane@doe.com'', ap_phone = Some p\<rparr> \<and>
     post_appointments parse cfg
       \<lparr>ap_date = ''2024-16-06'', ap_slot = Some 2, ap_name = ''Jane Doe'',
        ap_email = Some ''jane@doe.com'', ap_phone = Some p\<rparr>
     = Inr (\<lparr>sms_to = ''+15551234567'', sms_from = twilio_number cfg,
             sms_body = ''Jane Doe, this message is to confirm your appointment at 11:00 am on Sunday June 16th, 2024.''\<rparr>,
            \<lparr>title = ''Jane Doe'', type_slug = ''appointments'', write_key = bucket_write_key cfg,
             mf_date = ''2024-16-06'', mf_slot = Some 2, mf_email = Some ''jane@doe.com'',
             mf_phone = ''5551234567''\<rparr>) \<and>
     (\<exists>w'. api_appointments parse cfg twilio_ok (\<lambda>obj. True)
             \<lparr>ap_date = ''2024-16-06'', ap_slot = Some 2, ap_name = ''Jane Doe'',
              ap_email = Some ''jane@doe.com'', ap_phone = Some p\<rparr> w = Inr (w', ''succes'') \<and>
           stored w' = stored w @
             [\<lparr>title = ''Jane Doe'', type_slug = ''appointments'', write_key = bucket_write_key cfg,
               mf_date = ''2024-16-06'', mf_slot = Some 2, mf_email = Some ''jane@doe.com'',
               mf_phone = ''5551234567''\<rparr>]) \<and>
     sublist ''11:00 am''
       ''Jane Doe, this message is to confirm your appointment at 11:00 am on Sunday June 16th, 2024.'' \<and>
     sublist ''Sunday June 16th, 2024''
       ''Jane Doe, this message is to confirm your appointment at 11:00 am on Sunday June 16th, 2024.''"
proof -
  let ?today = "\<lparr>year = 2024, month = 6, dayOfMonth = 15\<rparr>"
  let ?day = "\<lparr>year = 2024, month = 6, dayOfMonth = 16\<rparr>"
  let ?body = "''Jane Doe, this message is to confirm your appointment at 11:00 am on Sunday June 16th, 2024.''"
  from digits have p: "p \<noteq> []" by (auto simp: strip_non_digits_def)
  have "\<not> before ?day ?today" by (simp add: before_def)
  then have pick: "\<not> checkDisableDate (handleFetch_schedule parse ?today []) ?today ?day"
    by (simp add: checkDisableDate_def handleFetch_schedule_Nil fmt_16_neq_15)
  have radio: "map_sum id (map_option (\<lambda>radios. disabled (radios ! 2)))
       (renderAppointmentTimes (run parse ?today [Fetched [], PickDate ?day]) ?today) = Inr (Some False)"
    by (simp add: run_def constructor_def handleFetch_def handleSetAppointmentDate_def
        handleNextStep_def renderAppointmentTimes_def renderRadio_def Let_def moment_of_def
        handleFetch_schedule_Nil scheduleDisabled_def fmt_16_neq_15 meridiemDisabled_def
        slot_meridiem)
  have filled: "contactFormFilled
       (run parse ?today [Fetched [], PickDate ?day, PickSlot 2, TypeFirstName ''Jane'',
           TypeLastName ''Doe'', TypeEmail ''jane@doe.com'', TypePhone p, ToggleDialog])"
    using p
    by (simp add: run_def constructor_def handleFetch_def handleSetAppointmentDate_def
        handleSetAppointmentSlot_def handleNextStep_def validateEmail_def validatePhone_def
        jane_ok valid contactFormFilled_def truthy_str_def)
  have submit: "handleSubmit
       (run parse ?today [Fetched [], PickDate ?day, PickSlot 2, TypeFirstName ''Jane'',
           TypeLastName ''Doe'', TypeEmail ''jane@doe.com'', TypePhone p, ToggleDialog]) ?today
     = \<lparr>ap_date = ''2024-16-06'', ap_slot = Some 2, ap_name = ''Jane Doe'',
        ap_email = Some ''jane@doe.com'', ap_phone = Some p\<rparr>"
    by (simp add: run_def constructor_def handleFetch_def handleSetAppointmentDate_def
        handleSetAppointmentSlot_def handleNextStep_def validateEmail_def validatePhone_def
        jane_ok valid handleSubmit_def moment_of_def fmt_2024_16_06 js_string_def)
  have post: "post_appointments parse cfg
       \<lparr>ap_date = ''2024-16-06'', ap_slot = Some 2, ap_name = ''Jane Doe'',
        ap_email = Some ''jane@doe.com'', ap_phone = Some p\<rparr>
     = Inr (\<lparr>sms_to = ''+15551234567'', sms_from = twilio_number cfg, sms_body = ?body\<rparr>,
            \<lparr>title = ''Jane Doe'', type_slug = ''appointments'', write_key = bucket_write_key cfg,
             mf_date = ''2024-16-06'', mf_slot = Some 2, mf_email = Some ''jane@doe.com'',
             mf_phone = ''5551234567''\<rparr>)"
    by (simp add: post_appointments_def Let_def parse digits format_or_invalid_def
        time_11 day_11 sunday fmt_2024_16_06)
  have api: "\<exists>w'. api_appointments parse cfg twilio_ok (\<lambda>obj. True)
             \<lparr>ap_date = ''2024-16-06'', ap_slot = Some 2, ap_name = ''Jane Doe'',
              ap_email = Some ''jane@doe.com'', ap_phone = Some p\<rparr> w = Inr (w', ''succes'') \<and>
           stored w' = stored w @
             [\<lparr>title = ''Jane Doe'', type_slug = ''appointments'', write_key = bucket_write_key cfg,
               mf_date = ''2024-16-06'', mf_slot = Some 2, mf_email = Some ''jane@doe.com'',
               mf_phone = ''5551234567''\<rparr>]"
    by (simp add: api_appointments_def post cosmic_add_def twilio_create_def)
  have "?body = ''Jane Doe, this message is to confirm your appointment at '' @ ''11:00 am'' @
                '' on Sunday June 16th, 2024.''"
    by simp
  then have s1: "sublist ''11:00 am'' ?body" unfolding sublist_def by blast
  have "?body = ''Jane Doe, this message is to confirm your appointment at 11:00 am on '' @
                ''Sunday June 16th, 2024'' @ ''.''"
    by simp
  then have s2: "sublist ''Sunday June 16th, 2024'' ?body" unfolding sublist_def by blast
  from pick radio filled submit post api s1 s2 show ?thesis by (intro conjI)
qed

theorem end_to_end_witness:
  "post_appointments parse_wire \<lparr>bucket_slug = ''bucket'', bucket_write_key = ''key'', twilio_number = ''+15005550006''\<rparr>
     (handleSubmit
        (run parse_wire \<lparr>year = 2024, month = 6, dayOfMonth = 15\<rparr>
          [Fetched [], PickDate \<lparr>year = 2024, month = 6, dayOfMonth = 16\<rparr>, PickSlot 2,
           TypeFirstName ''Jane'', TypeLastName ''Doe'', TypeEmail ''jane@doe.com'',
           TypePhone ''(555) 123-4567'', ToggleDialog])
        \<lparr>year = 2024, month = 6, dayOfMonth = 15\<rparr>)
   = Inr (\<lparr>sms_to = ''+15551234567'', sms_from = ''+15005550006'',
           sms_body = ''Jane Doe, this message is to confirm your appointment at 11:00 am on Sunday June 16th, 2024.''\<rparr>,
          \<lparr>title = ''Jane Doe'', type_slug = ''appointments'', write_key = ''key'',
           mf_date = ''2024-16-06'', mf_slot = Some 2, mf_email = Some ''jane@doe.com'',
           mf_phone = ''5551234567''\<rparr>)"
  using end_to_end [of parse_wire "''(555) 123-4567''"
      "\<lparr>bucket_slug = ''bucket'', bucket_write_key = ''key'', twilio_number = ''+15005550006''\<rparr>",
      OF parse_2024_16_06 phone_555 strip_555]
  by simp

end
